theory Spec2Isabelle
  imports Complex_Main "HOL-Library.Word" "HOL-Library.Signed_Division"
begin

unbundle bit_operations_syntax

section \<open>Sample converters (AudioTools/Converter.h)\<close>

text \<open>
  A converter receives \<^verbatim>\<open>T (*src)[2]\<close>, a pointer to stereo frames, and a frame count.
  The pointer carries no bound, so the frames are modelled as the memory behind the
  pointer: a function from the frame index to the pair (left, right). The element type
  \<open>T\<close> is an integer type here (\<open>int\<close>, no wrap-around: no statement below depends on
  the width of \<open>T\<close>), and a \<^verbatim>\<open>float\<close> is an exact rational (rounding of the
  floating-point unit is not modelled). A \<^verbatim>\<open>float\<close> stored into a \<open>T\<close> is truncated
  towards zero, as the C++ conversion does.
\<close>

type_synonym 'a frames = "nat \<Rightarrow> 'a \<times> 'a"

definition float_to_T :: "rat \<Rightarrow> int" where
  "float_to_T q = (if 0 \<le> q then \<lfloor>q\<rfloor> else \<lceil>q\<rceil>)"

subsection \<open>ConverterScaler\<close>

record ConverterScaler =
  factor :: rat
  maxValue :: int
  offset :: int

text \<open>
  The body of the loop of \<^verbatim>\<open>ConverterScaler::convert\<close>, statement by statement, on
  frame \<open>j\<close>. The last test reads \<^verbatim>\<open>src[j][0]\<close>, which holds the new left sample by
  then.
\<close>

definition scaler_frame :: "ConverterScaler \<Rightarrow> int \<times> int \<Rightarrow> int \<times> int" where
  "scaler_frame c fr =
     (let l1 = float_to_T (of_int (fst fr + offset c) * factor c);
          l2 = (if l1 > maxValue c then maxValue c
                else if l1 < - maxValue c then - maxValue c else l1);
          r1 = float_to_T (of_int (snd fr) + of_int (offset c) * factor c);
          r2 = (if r1 > maxValue c then maxValue c
                else if l2 < - maxValue c then - maxValue c else r1)
      in (l2, r2))"

definition ConverterScaler_convert :: "ConverterScaler \<Rightarrow> int frames \<Rightarrow> nat \<Rightarrow> int frames" where
  "ConverterScaler_convert c src sz =
     fold (\<lambda>j s. s(j := scaler_frame c (s j))) [0..<sz] src"

text \<open>What the specification asks of every sample: \<open>clip((s + offset) * factor, \<plusminus>maxValue)\<close>.\<close>

definition clip_spec :: "ConverterScaler \<Rightarrow> int \<Rightarrow> int" where
  "clip_spec c s =
     (let v = float_to_T (of_int (s + offset c) * factor c)
      in if v > maxValue c then maxValue c
         else if v < - maxValue c then - maxValue c else v)"

subsection \<open>ConverterAutoCenter\<close>




subsection \<open>ConverterSwitchLeftAndRight\<close>

text \<open>The two assignments of the loop body, in the order of the source.\<close>

definition switch_frame :: "'a \<times> 'a \<Rightarrow> 'a \<times> 'a" where
  "switch_frame fr =
     (let fr1 = (fst fr, fst fr);
          fr2 = (snd fr1, snd fr1)
      in fr2)"

definition ConverterSwitchLeftAndRight_convert :: "'a frames \<Rightarrow> nat \<Rightarrow> 'a frames" where
  "ConverterSwitchLeftAndRight_convert src sz =
     fold (\<lambda>j s. s(j := switch_frame (s j))) [0..<sz] src"

subsection \<open>CallbackConverter\<close>

text \<open>
  \<^verbatim>\<open>for (int i=size; i>0; i--)\<close>: the counter starts at \<open>size\<close> and the body runs for
  \<open>i = size, size - 1, \<dots>, 1\<close>. The loop is a recursion on the counter. Next to the
  target memory it returns the indices at which the body ran, in order, so that
  statements about which frames are touched can be made. A \<open>size\<close> above \<open>INT_MAX\<close>
  makes the \<^verbatim>\<open>int\<close> counter start negative, and the body never runs.
\<close>

primrec callback_loop ::
  "('a \<Rightarrow> 'b) \<Rightarrow> 'a frames \<Rightarrow> nat \<Rightarrow> 'b frames \<times> nat list \<Rightarrow> 'b frames \<times> nat list" where
  "callback_loop convert_ptr src 0 acc = acc"
| "callback_loop convert_ptr src (Suc n) acc =
     callback_loop convert_ptr src n
       ((fst acc)(Suc n := (convert_ptr (fst (src (Suc n))), convert_ptr (snd (src (Suc n))))),
        snd acc @ [Suc n])"

definition CallbackConverter_convert ::
  "('a \<Rightarrow> 'b) \<Rightarrow> 'a frames \<Rightarrow> 'b frames \<Rightarrow> nat \<Rightarrow> 'b frames \<times> nat list" where
  "CallbackConverter_convert convert_ptr src target sz =
     (if sz < 2 ^ 31 then callback_loop convert_ptr src sz (target, [])
      else (target, []))"


text \<open>
  A buffer of frames given as a list, with the frame \<open>d\<close> in the memory behind it; used
  to write concrete inputs.
\<close>

definition frames_of :: "('a \<times> 'a) list \<Rightarrow> 'a \<times> 'a \<Rightarrow> 'a frames" where
  "frames_of xs d = (\<lambda>i. if i < length xs then xs ! i else d)"

section \<open>WAV header parser, decoder and encoder (CodecWAV.h)\<close>

text \<open>
  The library is written for 32-bit microcontrollers: \<^verbatim>\<open>int\<close>, \<^verbatim>\<open>long\<close> and
  \<^verbatim>\<open>size_t\<close> are 32 bits wide, and all three are modelled as \<open>32 word\<close> (read with
  \<open>sint\<close> where the source treats the value as signed). Memory is little-endian.
  A buffer passed as pointer and length is a list of bytes together with its length.
\<close>

type_synonym byte = "8 word"
type_synonym u16 = "16 word"
type_synonym u32 = "32 word"

definition WAV_FORMAT_PCM :: u32 where
  "WAV_FORMAT_PCM = 0x0001"

definition TAG :: "char \<Rightarrow> char \<Rightarrow> char \<Rightarrow> char \<Rightarrow> u32" where
  "TAG a b c d =
     push_bit 24 (of_nat (of_char a)) OR push_bit 16 (of_nat (of_char b))
       OR push_bit 8 (of_nat (of_char c)) OR of_nat (of_char d)"

record WAVAudioInfo =
  format :: u32
  sample_rate :: u32
  bits_per_sample :: u32
  channels :: u32
  byte_rate :: u32
  block_align :: u32
  is_streamed :: bool
  is_valid :: bool
  data_length :: u32
  file_size :: u32

text \<open>The record after \<^verbatim>\<open>memset(&headerInfo, 0, sizeof(WAVAudioInfo))\<close>.\<close>

definition zero_info :: WAVAudioInfo where
  "zero_info = \<lparr>format = 0, sample_rate = 0, bits_per_sample = 0, channels = 0,
     byte_rate = 0, block_align = 0, is_streamed = False, is_valid = False,
     data_length = 0, file_size = 0\<rparr>"

subsection \<open>WAVHeader\<close>

text \<open>
  The members of \<^verbatim>\<open>WAVHeader\<close>. The field \<open>visited\<close> is not in the source: it
  records every value that \<^verbatim>\<open>data_pos\<close> is given during a scan, newest first, so that
  statements about the path of the cursor can be made.
\<close>

record WAVHeader =
  headerInfo :: WAVAudioInfo
  buffer :: "byte list"
  len :: u32
  data_pos :: u32
  sound_pos :: u32
  visited :: "u32 list"

definition move_to :: "u32 \<Rightarrow> WAVHeader \<Rightarrow> WAVHeader" where
  "move_to p s = s\<lparr>data_pos := p, visited := p # visited s\<rparr>"

text \<open>\<^verbatim>\<open>getChar\<close> returns an \<^verbatim>\<open>int\<close>: the byte, or \<open>-1\<close>.\<close>

definition getChar :: "WAVHeader \<Rightarrow> u32 \<times> WAVHeader" where
  "getChar s =
     (if data_pos s < len s
      then (ucast (buffer s ! unat (data_pos s)), move_to (data_pos s + 1) s)
      else (- 1, s))"

definition read_tag :: "WAVHeader \<Rightarrow> u32 \<times> WAVHeader" where
  "read_tag s0 =
     (let tag = 0;
          (c, s1) = getChar s0; tag = push_bit 8 tag OR c;
          (c, s2) = getChar s1; tag = push_bit 8 tag OR c;
          (c, s3) = getChar s2; tag = push_bit 8 tag OR c;
          (c, s4) = getChar s3; tag = push_bit 8 tag OR c
      in (tag, s4))"

definition read_int32 :: "WAVHeader \<Rightarrow> u32 \<times> WAVHeader" where
  "read_int32 s0 =
     (let v = 0;
          (c, s1) = getChar s0; v = v OR push_bit 0 c;
          (c, s2) = getChar s1; v = v OR push_bit 8 c;
          (c, s3) = getChar s2; v = v OR push_bit 16 c;
          (c, s4) = getChar s3; v = v OR push_bit 24 c
      in (v, s4))"

text \<open>The \<^verbatim>\<open>uint16_t\<close> accumulator keeps the low 16 bits of each \<^verbatim>\<open>int\<close> result.\<close>

definition read_int16 :: "WAVHeader \<Rightarrow> u16 \<times> WAVHeader" where
  "read_int16 s0 =
     (let v = (0 :: u16);
          (c, s1) = getChar s0; v = (ucast ((ucast v :: u32) OR push_bit 0 c) :: u16);
          (c, s2) = getChar s1; v = (ucast ((ucast v :: u32) OR push_bit 8 c) :: u16)
      in (v, s2))"

text \<open>\<^verbatim>\<open>skip(int n)\<close>: \<open>n\<close> calls of \<^verbatim>\<open>getChar\<close>; none when \<open>n\<close> is negative.\<close>

primrec skip_loop :: "nat \<Rightarrow> WAVHeader \<Rightarrow> WAVHeader" where
  "skip_loop 0 s = s"
| "skip_loop (Suc k) s = skip_loop k (snd (getChar s))"

definition skip :: "u32 \<Rightarrow> WAVHeader \<Rightarrow> WAVHeader" where
  "skip n s = skip_loop (nat (sint n)) s"

datatype origin = SEEK_SET | SEEK_CUR

text \<open>
  \<^verbatim>\<open>seek(long int offset, int origin)\<close>: the 32-bit offset is added to the 32-bit
  cursor, modulo \<open>2^32\<close>.
\<close>

definition seek :: "u32 \<Rightarrow> origin \<Rightarrow> WAVHeader \<Rightarrow> WAVHeader" where
  "seek off org s =
     (case org of
        SEEK_SET \<Rightarrow> move_to off s
      | SEEK_CUR \<Rightarrow> move_to (data_pos s + off) s)"

definition tell :: "WAVHeader \<Rightarrow> u32" where
  "tell s = data_pos s"

text \<open>\<^verbatim>\<open>data_pos>=len-1\<close> on unsigned values: for \<open>len = 0\<close> the bound wraps.\<close>

definition eof :: "WAVHeader \<Rightarrow> bool" where
  "eof s = (data_pos s \<ge> len s - 1)"


definition upd_info :: "(WAVAudioInfo \<Rightarrow> WAVAudioInfo) \<Rightarrow> WAVHeader \<Rightarrow> WAVHeader" where
  "upd_info f s = s\<lparr>headerInfo := f (headerInfo s)\<rparr>"

text \<open>
  The inner loop of \<^verbatim>\<open>begin\<close>, \<^verbatim>\<open>while (length >= 8)\<close>, over the sub-chunks of a RIFF
  chunk. \<open>rlen\<close> is the variable \<^verbatim>\<open>length\<close> of the source. The result says whether the
  loop was left by the \<^verbatim>\<open>return\<close> of the \<open>data\<close> branch (\<open>True\<close>) or by a
  \<^verbatim>\<open>break\<close> or its condition (\<open>False\<close>), with the final \<^verbatim>\<open>length\<close> and state.
\<close>

function riff_chunks :: "u32 \<Rightarrow> WAVHeader \<Rightarrow> bool \<times> u32 \<times> WAVHeader" where
  "riff_chunks rlen s =
     (if rlen \<ge> 8 then
        (let (subtag, s) = read_tag s in
         if eof s then (False, rlen, s)
         else
           let (sublength, s) = read_int32 s;
               rlen = rlen - 8
           in if rlen < sublength then (False, rlen, s)
              else if subtag = TAG CHR ''f'' CHR ''m'' CHR ''t'' CHR '' '' then
                (if sublength < 16 then (False, rlen, s)
                 else
                   let (v, s) = read_int16 s; s = upd_info (\<lambda>i. i\<lparr>format := ucast v\<rparr>) s;
                       (v, s) = read_int16 s; s = upd_info (\<lambda>i. i\<lparr>channels := ucast v\<rparr>) s;
                       (w, s) = read_int32 s; s = upd_info (\<lambda>i. i\<lparr>sample_rate := w\<rparr>) s;
                       (w, s) = read_int32 s; s = upd_info (\<lambda>i. i\<lparr>byte_rate := w\<rparr>) s;
                       (v, s) = read_int16 s; s = upd_info (\<lambda>i. i\<lparr>block_align := ucast v\<rparr>) s;
                       (v, s) = read_int16 s; s = upd_info (\<lambda>i. i\<lparr>bits_per_sample := ucast v\<rparr>) s
                   in if format (headerInfo s) = 0xfffe then
                        (if sublength < 28 then (False, rlen, s)
                         else
                           let s = skip 8 s;
                               (w, s) = read_int32 s; s = upd_info (\<lambda>i. i\<lparr>format := w\<rparr>) s;
                               s = skip (sublength - 28) s;
                               s = upd_info (\<lambda>i. i\<lparr>is_valid := True\<rparr>) s
                           in riff_chunks (rlen - sublength) s)
                      else
                        let s = skip (sublength - 16) s;
                            s = upd_info (\<lambda>i. i\<lparr>is_valid := True\<rparr>) s
                        in riff_chunks (rlen - sublength) s)
              else if subtag = TAG CHR ''d'' CHR ''a'' CHR ''t'' CHR ''a'' then
                (let s = s\<lparr>sound_pos := tell s\<rparr>;
                     s = upd_info (\<lambda>i. i\<lparr>data_length := sublength\<rparr>) s
                 in if data_length (headerInfo s) = 0 \<or> is_streamed (headerInfo s) then
                      (True, rlen, upd_info (\<lambda>i. i\<lparr>is_streamed := True\<rparr>) s)
                    else riff_chunks (rlen - sublength) (seek sublength SEEK_CUR s))
              else riff_chunks (rlen - sublength) (skip sublength s))
      else (False, rlen, s))"
  by pat_completeness auto
termination
  by (relation "measure (\<lambda>(rlen, s). unat rlen)")
    (auto simp: unat_sub not_less word_le_nat_alt)

text \<open>
  The outer loop of \<^verbatim>\<open>begin\<close>, \<^verbatim>\<open>while (!eof())\<close>. A \<^verbatim>\<open>continue\<close> is the recursive
  call. The loop need not end (a seek can move the cursor back), so the function is
  partial: \<open>None\<close> stands for a scan that never returns.
\<close>

partial_function (option) scan_loop :: "WAVHeader \<Rightarrow> WAVHeader option" where
  "scan_loop s =
     (if eof s then Some s
      else
        let (tag, s) = read_tag s in
        if eof s then Some s
        else
          let (rlen, s) = read_int32 s;
              streamed = (rlen = 0 \<or> rlen \<ge> 0x7fff0000);
              s = (if streamed then upd_info (\<lambda>i. i\<lparr>is_streamed := True\<rparr>) s else s);
              rlen = (if streamed then NOT 0 else rlen)
          in if tag \<noteq> TAG CHR ''R'' CHR ''I'' CHR ''F'' CHR ''F'' \<or> rlen < 4
             then scan_loop (seek rlen SEEK_CUR s)
             else
               let (tag2, s) = read_tag s;
                   rlen = rlen - 4
               in if tag2 \<noteq> TAG CHR ''W'' CHR ''A'' CHR ''V'' CHR ''E''
                  then scan_loop (seek rlen SEEK_CUR s)
                  else
                    (case riff_chunks rlen s of
                       (returned, rlen, s) \<Rightarrow>
                         if returned then Some s
                         else scan_loop (if rlen > 0 then seek rlen SEEK_CUR s else s)))"

definition WAVHeader_begin :: "WAVHeader \<Rightarrow> byte list \<Rightarrow> u32 \<Rightarrow> WAVHeader option" where
  "WAVHeader_begin this buf n =
     scan_loop (this\<lparr>buffer := buf, len := n, data_pos := 0, headerInfo := zero_info,
                     visited := []\<rparr>)"



declare scan_loop.simps [code]

subsection \<open>Collaborators: the byte sink and the format listener\<close>

text \<open>
  Modelled from the spec: the byte sink (\<^verbatim>\<open>Print\<close>, \<^verbatim>\<open>Stream\<close>) is declared outside
  the files at hand; the specification describes it as a consumer with
  \<open>write(bytes, count) -> count_written\<close> and \<open>flush()\<close>. The model is a sink that takes
  every byte it is offered: it appends the \<open>n\<close> bytes behind the pointer to what it has
  received and returns \<open>n\<close>; \<open>flush\<close> is counted.
\<close>

record Stream =
  written :: "byte list"
  flushes :: nat

definition Stream_write :: "byte list \<Rightarrow> nat \<Rightarrow> Stream \<Rightarrow> nat \<times> Stream" where
  "Stream_write p n st = (n, st\<lparr>written := written st @ take n p\<rparr>)"

definition Stream_flush :: "Stream \<Rightarrow> Stream" where
  "Stream_flush st = st\<lparr>flushes := flushes st + 1\<rparr>"




subsection \<open>WAVDecoder\<close>




subsection \<open>WAVEncoder\<close>

text \<open>
  \<^verbatim>\<open>size_limit\<close> is an \<^verbatim>\<open>int64_t\<close> that only ever holds values below \<open>2^32\<close>; it is an
  \<open>int\<close>. \<^verbatim>\<open>stream_ptr\<close> is \<open>None\<close> for the null pointer.
\<close>

record WAVEncoder =
  stream_ptr :: "Stream option"
  audioInfo :: WAVAudioInfo
  size_limit :: int
  header_written :: bool
  is_open :: bool

text \<open>Division of two \<^verbatim>\<open>int\<close> values: C++ truncates towards zero.\<close>

definition int_div :: "u32 \<Rightarrow> u32 \<Rightarrow> u32" where
  "int_div a b = word_of_int (sint a sdiv sint b)"

text \<open>
  \<^verbatim>\<open>defaultConfig\<close>; the macros \<^verbatim>\<open>DEFAULT_SAMPLE_RATE\<close>, \<^verbatim>\<open>DEFAULT_BITS_PER_SAMPLE\<close>
  and \<^verbatim>\<open>DEFAULT_CHANNELS\<close> come from a header outside the files at hand and are
  parameters. The two fields the function leaves unset are 0 here.
\<close>

definition defaultConfig :: "u32 \<Rightarrow> u32 \<Rightarrow> u32 \<Rightarrow> WAVAudioInfo" where
  "defaultConfig default_sample_rate default_bits_per_sample default_channels =
     (let info = zero_info;
          info = info\<lparr>format := WAV_FORMAT_PCM\<rparr>;
          info = info\<lparr>sample_rate := default_sample_rate\<rparr>;
          info = info\<lparr>bits_per_sample := default_bits_per_sample\<rparr>;
          info = info\<lparr>channels := default_channels\<rparr>;
          info = info\<lparr>is_streamed := False\<rparr>;
          info = info\<lparr>is_valid := True\<rparr>;
          info = info\<lparr>data_length := 0x7fff0000\<rparr>;
          info = info\<lparr>file_size := data_length info + 36\<rparr>
      in info)"

definition WAVEncoder_begin :: "WAVEncoder \<Rightarrow> WAVAudioInfo \<Rightarrow> WAVEncoder" where
  "WAVEncoder_begin e ai =
     (let e = e\<lparr>header_written := False, is_open := True, audioInfo := ai\<rparr>;
          a = audioInfo e;
          e = e\<lparr>audioInfo := a\<lparr>byte_rate := sample_rate a * bits_per_sample a * channels a\<rparr>\<rparr>;
          a = audioInfo e;
          e = e\<lparr>audioInfo := a\<lparr>block_align := int_div (bits_per_sample a) 8 * channels a\<rparr>\<rparr>;
          a = audioInfo e
      in if is_streamed a \<or> data_length a = 0 \<or> data_length a \<ge> 0x7fff0000
         then e\<lparr>audioInfo := a\<lparr>is_streamed := True, data_length := NOT 0\<rparr>\<rparr>
         else e\<lparr>size_limit := uint (data_length a)\<rparr>)"

definition WAVEncoder_end :: "WAVEncoder \<Rightarrow> WAVEncoder" where
  "WAVEncoder_end e = e\<lparr>is_open := False\<rparr>"

text \<open>A string literal as bytes, and the memory image of the low four and two bytes.\<close>

definition cstr :: "string \<Rightarrow> byte list" where
  "cstr cs = map (\<lambda>c. of_nat (of_char c)) cs"

definition le32 :: "u32 \<Rightarrow> byte list" where
  "le32 v = [ucast v, ucast (drop_bit 8 v), ucast (drop_bit 16 v), ucast (drop_bit 24 v)]"

definition le16 :: "u16 \<Rightarrow> byte list" where
  "le16 v = [ucast v, ucast (drop_bit 8 v)]"

definition stream_put :: "byte list \<Rightarrow> nat \<Rightarrow> WAVEncoder \<Rightarrow> nat \<times> WAVEncoder" where
  "stream_put p n e =
     (case stream_ptr e of
        None \<Rightarrow> (0, e)
      | Some st \<Rightarrow> (let (r, st) = Stream_write p n st in (r, e\<lparr>stream_ptr := Some st\<rparr>)))"

definition write32 :: "u32 \<Rightarrow> WAVEncoder \<Rightarrow> WAVEncoder" where
  "write32 v e = snd (stream_put (le32 v) 4 e)"

definition write16 :: "u16 \<Rightarrow> WAVEncoder \<Rightarrow> WAVEncoder" where
  "write16 v e = snd (stream_put (le16 v) 2 e)"

definition writeRiffHeader :: "WAVEncoder \<Rightarrow> WAVEncoder" where
  "writeRiffHeader e =
     (let e = snd (stream_put (cstr ''RIFF'') 4 e);
          e = write32 (file_size (audioInfo e) - 8) e;
          e = snd (stream_put (cstr ''WAVE'') 4 e)
      in e)"

definition writeFMT :: "WAVEncoder \<Rightarrow> WAVEncoder" where
  "writeFMT e =
     (let a = audioInfo e;
          fmt_len = (16 :: u16);
          byteRate = int_div (sample_rate a * bits_per_sample a * channels a) 8;
          frame_size = int_div (channels a * bits_per_sample a) 8;
          e = snd (stream_put (cstr ''fmt '') 4 e);
          e = write32 (ucast fmt_len) e;
          e = write16 (ucast (format a)) e;
          e = write16 (ucast (channels a)) e;
          e = write32 (sample_rate a) e;
          e = write32 byteRate e;
          e = write16 (ucast frame_size) e;
          e = write16 (ucast (bits_per_sample a)) e
      in e)"

definition writeDataHeader :: "WAVEncoder \<Rightarrow> WAVEncoder" where
  "writeDataHeader e =
     (let e = snd (stream_put (cstr ''data'') 4 e);
          a = audioInfo e;
          e = e\<lparr>audioInfo := a\<lparr>file_size := file_size a - 44\<rparr>\<rparr>;
          e = write32 (file_size (audioInfo e)) e
      in e)"

text \<open>
  The result of \<^verbatim>\<open>write\<close>. On a session that is not open the source logs an error,
  executes \<^verbatim>\<open>int x = 10 / 0;\<close> and then \<^verbatim>\<open>return 0;\<close>: this path is the outcome
  \<open>NotOpenFault\<close>, and \<open>return_value\<close> gives the count each outcome hands back.
\<close>

datatype write_outcome = NotOpenFault | Count nat

definition return_value :: "write_outcome \<Rightarrow> nat" where
  "return_value r = (case r of NotOpenFault \<Rightarrow> 0 | Count n \<Rightarrow> n)"

definition WAVEncoder_write :: "WAVEncoder \<Rightarrow> byte list \<Rightarrow> write_outcome \<times> WAVEncoder" where
  "WAVEncoder_write e in_ptr =
     (if \<not> is_open e then (NotOpenFault, e)
      else if stream_ptr e = None then (Count 0, e)
      else
        let in_size = length in_ptr;
            e = (if \<not> header_written e
                 then (writeDataHeader (writeFMT (writeRiffHeader e)))\<lparr>header_written := True\<rparr>
                 else e)
        in if is_streamed (audioInfo e) then
             (let (r, e) = stream_put in_ptr in_size e in (Count r, e))
           else if size_limit e > 0 then
             (let write_size = min in_size (nat (size_limit e));
                  (r, e) = stream_put in_ptr write_size e;
                  e = e\<lparr>size_limit := size_limit e - int r\<rparr>
              in if size_limit e \<le> 0
                 then (Count r, e\<lparr>stream_ptr := map_option Stream_flush (stream_ptr e),
                                   is_open := False\<rparr>)
                 else (Count r, e))
           else (Count 0, e))"

text \<open>A sequence of writes on one session; the state is passed along.\<close>

definition write_all :: "WAVEncoder \<Rightarrow> byte list list \<Rightarrow> WAVEncoder" where
  "write_all e ws = foldl (\<lambda>e w. snd (WAVEncoder_write e w)) e ws"


section \<open>Auxiliary definitions for the statements\<close>


text \<open>
  The 44 bytes that \<^verbatim>\<open>writeRiffHeader\<close>, \<^verbatim>\<open>writeFMT\<close> and \<^verbatim>\<open>writeDataHeader\<close> send to
  the sink for the descriptor \<open>a\<close>, written out field by field.
\<close>

definition wav_header_bytes :: "WAVAudioInfo \<Rightarrow> byte list" where
  "wav_header_bytes a =
     cstr ''RIFF'' @ le32 (file_size a - 8) @ cstr ''WAVE'' @
     cstr ''fmt '' @ le32 16 @ le16 (ucast (format a)) @ le16 (ucast (channels a)) @
     le32 (sample_rate a) @ le32 (int_div (sample_rate a * bits_per_sample a * channels a) 8) @
     le16 (ucast (int_div (channels a * bits_per_sample a) 8)) @ le16 (ucast (bits_per_sample a)) @
     cstr ''data'' @ le32 (file_size a - 44)"


definition WAVHeader_new :: WAVHeader where
  "WAVHeader_new = \<lparr>headerInfo = zero_info, buffer = [], len = 0, data_pos = 0, sound_pos = 0,
     visited = []\<rparr>"

definition Stream_new :: Stream where
  "Stream_new = \<lparr>written = [], flushes = 0\<rparr>"



definition WAVEncoder_new :: "Stream \<Rightarrow> WAVAudioInfo \<Rightarrow> WAVEncoder" where
  "WAVEncoder_new st cfg =
     \<lparr>stream_ptr = Some st, audioInfo = cfg, size_limit = 0, header_written = False,
      is_open = False\<rparr>"

definition example_info :: "u32 \<Rightarrow> u32 \<Rightarrow> u32 \<Rightarrow> WAVAudioInfo" where
  "example_info fmt dlen fsize =
     \<lparr>format = fmt, sample_rate = 44100, bits_per_sample = 16, channels = 2,
      byte_rate = 0, block_align = 0, is_streamed = False, is_valid = True,
      data_length = dlen, file_size = fsize\<rparr>"



text \<open>
  What the cursor reads from a buffer \<open>b\<close> at index \<open>i\<close>: a tag (four bytes, first byte
  highest), a little-endian 32-bit and a little-endian 16-bit number.
\<close>

definition tag_at :: "byte list \<Rightarrow> nat \<Rightarrow> u32" where
  "tag_at b i = push_bit 24 (ucast (b ! i)) OR push_bit 16 (ucast (b ! (i + 1)))
                OR push_bit 8 (ucast (b ! (i + 2))) OR ucast (b ! (i + 3))"

definition rd32 :: "byte list \<Rightarrow> nat \<Rightarrow> u32" where
  "rd32 b i = ucast (b ! i) OR push_bit 8 (ucast (b ! (i + 1)))
              OR push_bit 16 (ucast (b ! (i + 2))) OR push_bit 24 (ucast (b ! (i + 3)))"

definition rd16 :: "byte list \<Rightarrow> nat \<Rightarrow> u16" where
  "rd16 b i = ucast (b ! i) OR push_bit 8 (ucast (b ! (i + 1)))"

text \<open>
  \<open>advanced s k s'\<close>: state \<open>s'\<close> is \<open>s\<close> with the cursor \<open>k\<close> bytes further on.
  \<open>cursor_at s b l p hi sp\<close>: the scanner \<open>s\<close> works on buffer \<open>b\<close> of length \<open>l\<close>, its
  cursor is at \<open>p\<close>, its descriptor is \<open>hi\<close> and its \<^verbatim>\<open>sound_pos\<close> is \<open>sp\<close>.
\<close>

definition advanced :: "WAVHeader \<Rightarrow> nat \<Rightarrow> WAVHeader \<Rightarrow> bool" where
  "advanced s k s' \<longleftrightarrow>
     data_pos s' = data_pos s + of_nat k \<and> buffer s' = buffer s \<and> len s' = len s
     \<and> sound_pos s' = sound_pos s \<and> headerInfo s' = headerInfo s"

definition cursor_at ::
  "WAVHeader \<Rightarrow> byte list \<Rightarrow> nat \<Rightarrow> nat \<Rightarrow> WAVAudioInfo \<Rightarrow> u32 \<Rightarrow> bool" where
  "cursor_at s b l p hi sp \<longleftrightarrow>
     buffer s = b \<and> unat (len s) = l \<and> unat (data_pos s) = p \<and> headerInfo s = hi
     \<and> sound_pos s = sp"

text \<open>
  A WAVE file in the canonical layout, byte by byte: the RIFF header with its size
  field, a \<open>fmt\<close> chunk with its size field, its six fields and further bytes \<open>extra\<close>,
  then a \<open>data\<close> chunk header with its size field and the bytes \<open>rest\<close> that follow it
  in the buffer.
\<close>

definition wav_file ::
  "u32 \<Rightarrow> u32 \<Rightarrow> u16 \<Rightarrow> u16 \<Rightarrow> u32 \<Rightarrow> u32 \<Rightarrow> u16 \<Rightarrow> u16 \<Rightarrow> byte list \<Rightarrow> u32 \<Rightarrow> byte list
   \<Rightarrow> byte list" where
  "wav_file riff_size fmt_size fmt_code nch rate brate balign bits extra data_size rest =
     cstr ''RIFF'' @ le32 riff_size @ cstr ''WAVE'' @
     cstr ''fmt '' @ le32 fmt_size @ le16 fmt_code @ le16 nch @ le32 rate @ le32 brate @
     le16 balign @ le16 bits @ extra @
     cstr ''data'' @ le32 data_size @ rest"


section \<open>The converters\<close>




lemma callback_loop_log:
  "snd (callback_loop f src n acc) = snd acc @ rev [1..<Suc n]"
  by (induction n arbitrary: acc) simp_all

lemma callback_loop_mem:
  "fst (callback_loop f src n acc) i =
     (if 1 \<le> i \<and> i \<le> n then (f (fst (src i)), f (snd (src i))) else fst acc i)"
  by (induction n arbitrary: acc) auto

text \<open>
  C6. The claim: for both channels, \<^verbatim>\<open>ConverterScaler::convert\<close> replaces every sample
  \<open>s\<close> by \<open>clip((s + offset) * factor, \<plusminus>maxValue)\<close>, so a factor of 0 zeroes both
  channels. The code applies that formula to the left channel only; the right channel
  is \<^verbatim>\<open>src[j][1] + offset * factor\<close>. With factor 0, offset 0 and bound 10 the frame
  (5, 5) becomes (0, 5): the right sample is not muted, although the formula of the
  claim gives 0.
\<close>

theorem ConverterScaler_right_channel_not_scaled:
  "ConverterScaler_convert \<lparr>factor = 0, maxValue = 10, offset = 0\<rparr> (frames_of [(5, 5)] (0, 0)) 1 0
     = (0, 5)
   \<and> clip_spec \<lparr>factor = 0, maxValue = 10, offset = 0\<rparr> 5 = 0"
  by (simp add: ConverterScaler_convert_def scaler_frame_def clip_spec_def float_to_T_def
      frames_of_def)




text \<open>
  C8. The claim: after \<^verbatim>\<open>ConverterSwitchLeftAndRight::convert\<close> every frame holds its two
  samples exchanged. The code assigns \<^verbatim>\<open>src[j][1] = src[j][0]\<close> and then
  \<^verbatim>\<open>src[j][0] = src[j][1]\<close>, with no temporary: the frame (1, 2) becomes (1, 1), not
  (2, 1). The original right sample is lost.
\<close>

theorem ConverterSwitchLeftAndRight_loses_right:
  "ConverterSwitchLeftAndRight_convert (frames_of [(1::int, 2)] (0, 0)) 1 0 = (1, 1)"
  by (simp add: ConverterSwitchLeftAndRight_convert_def switch_frame_def frames_of_def)

text \<open>
  C10. For a frame count \<open>size > 0\<close> (within the range of \<^verbatim>\<open>int\<close>),
  \<^verbatim>\<open>CallbackConverter::convert\<close> runs its body at the indices \<open>size, size - 1, \<dots>, 1\<close>
  and nowhere else, reading \<open>src[i]\<close> and writing \<open>target[i]\<close>: frame 0 of the target
  keeps its old content, and index \<open>size\<close>, one past the last frame of a buffer of
  \<open>size\<close> frames, is read from the source and written to the target.
\<close>

theorem CallbackConverter_indices:
  assumes "0 < sz" "sz < 2 ^ 31"
  shows "snd (CallbackConverter_convert f src target sz) = rev [1..<Suc sz]
       \<and> (\<forall>i. fst (CallbackConverter_convert f src target sz) i =
             (if 1 \<le> i \<and> i \<le> sz then (f (fst (src i)), f (snd (src i))) else target i))
       \<and> fst (CallbackConverter_convert f src target sz) 0 = target 0
       \<and> 0 \<notin> set (snd (CallbackConverter_convert f src target sz))
       \<and> sz \<in> set (snd (CallbackConverter_convert f src target sz))
       \<and> fst (CallbackConverter_convert f src target sz) sz = (f (fst (src sz)), f (snd (src sz)))"
  using assms
  by (simp add: CallbackConverter_convert_def callback_loop_log callback_loop_mem)

theorem CallbackConverter_indices_witness:
  "(0::nat) < 2 \<and> (2::nat) < 2 ^ 31
   \<and> snd (CallbackConverter_convert (\<lambda>v. v + 1) (\<lambda>i. (int i, 10 * int i)) (\<lambda>i. (0, 0)) 2) = [2, 1]
   \<and> fst (CallbackConverter_convert (\<lambda>v. v + 1) (\<lambda>i. (int i, 10 * int i)) (\<lambda>i. (0, 0)) 2) 2 = (3, 21)
   \<and> fst (CallbackConverter_convert (\<lambda>v. v + 1) (\<lambda>i. (int i, 10 * int i)) (\<lambda>i. (0, 0)) 2) 0 = (0, 0)"
  using CallbackConverter_indices [of 2 "\<lambda>v. v + 1" "\<lambda>i. (int i, 10 * int i)" "\<lambda>i. (0, 0)"]
  by (simp add: upt_rec)


section \<open>The encoder\<close>

lemma length_wav_header_bytes: "length (wav_header_bytes a) = 44"
  by (simp add: wav_header_bytes_def cstr_def le32_def le16_def)

lemma emit_header:
  assumes "stream_ptr e = Some st"
  shows "writeDataHeader (writeFMT (writeRiffHeader e)) =
         e\<lparr>stream_ptr := Some (st\<lparr>written := written st @ wav_header_bytes (audioInfo e)\<rparr>),
           audioInfo := (audioInfo e)\<lparr>file_size := file_size (audioInfo e) - 44\<rparr>\<rparr>"
  using assms
  by (simp add: writeDataHeader_def writeFMT_def writeRiffHeader_def write32_def write16_def
      stream_put_def Stream_write_def wav_header_bytes_def cstr_def le32_def le16_def Let_def)

lemma write_all_snoc: "write_all e (ws @ [w]) = snd (WAVEncoder_write (write_all e ws) w)"
  by (simp add: write_all_def)

lemma write_closed:
  "\<not> is_open e \<Longrightarrow> WAVEncoder_write e w = (NotOpenFault, e)"
  by (simp add: WAVEncoder_write_def)

lemma write_bounded_open:
  assumes "stream_ptr e = Some st" "is_open e" "\<not> is_streamed (audioInfo e)" "0 < size_limit e"
  shows "\<exists>st'. stream_ptr (snd (WAVEncoder_write e w)) = Some st'
         \<and> written st' = written st @ (if header_written e then [] else wav_header_bytes (audioInfo e))
                          @ take (nat (size_limit e)) w
         \<and> \<not> is_streamed (audioInfo (snd (WAVEncoder_write e w)))
         \<and> header_written (snd (WAVEncoder_write e w))
         \<and> size_limit (snd (WAVEncoder_write e w))
             = size_limit e - int (min (length w) (nat (size_limit e)))
         \<and> is_open (snd (WAVEncoder_write e w)) = (int (length w) < size_limit e)
         \<and> fst (WAVEncoder_write e w) = Count (min (length w) (nat (size_limit e)))"
proof (cases "header_written e")
  case True
  then show ?thesis
    using assms
    by (auto simp: WAVEncoder_write_def stream_put_def Stream_write_def Stream_flush_def Let_def
        min_def)
next
  case False
  then show ?thesis
    using assms
    by (auto simp: WAVEncoder_write_def emit_header stream_put_def Stream_write_def Stream_flush_def
        Let_def min_def)
qed

lemma write_all_invariant:
  assumes "stream_ptr e0 = Some st0" "\<not> header_written e0" "is_open e0"
    "\<not> is_streamed (audioInfo e0)" "size_limit e0 = int d" "0 < d"
  shows "\<exists>st'. stream_ptr (write_all e0 ws) = Some st'
      \<and> written st' = written st0 @ (if ws = [] then [] else wav_header_bytes (audioInfo e0))
                       @ take d (concat ws)
      \<and> \<not> is_streamed (audioInfo (write_all e0 ws))
      \<and> size_limit (write_all e0 ws) = int d - int (min d (length (concat ws)))
      \<and> is_open (write_all e0 ws) = (length (concat ws) < d)
      \<and> header_written (write_all e0 ws) = (ws \<noteq> [])
      \<and> (ws = [] \<longrightarrow> write_all e0 ws = e0)"
proof (induction ws rule: rev_induct)
  case Nil
  then show ?case using assms by (simp add: write_all_def)
next
  case (snoc w ws)
  let ?e = "write_all e0 ws"
  from snoc obtain st' where st': "stream_ptr ?e = Some st'"
    and wr: "written st' = written st0 @ (if ws = [] then [] else wav_header_bytes (audioInfo e0))
                       @ take d (concat ws)"
    and ns: "\<not> is_streamed (audioInfo ?e)"
    and sl: "size_limit ?e = int d - int (min d (length (concat ws)))"
    and op: "is_open ?e = (length (concat ws) < d)"
    and hw: "header_written ?e = (ws \<noteq> [])"
    and e0: "ws = [] \<longrightarrow> ?e = e0"
    by blast
  show ?case
  proof (cases "length (concat ws) < d")
    case True
    then have pos: "0 < size_limit ?e" and o: "is_open ?e"
      using sl op by auto
    have n: "nat (size_limit ?e) = d - length (concat ws)"
      using sl True by auto
    from write_bounded_open [OF st' o ns pos, of w] obtain st2 where
      a: "stream_ptr (snd (WAVEncoder_write ?e w)) = Some st2"
      and b: "written st2 = written st' @ (if header_written ?e then [] else wav_header_bytes (audioInfo ?e))
                          @ take (nat (size_limit ?e)) w"
      and c: "\<not> is_streamed (audioInfo (snd (WAVEncoder_write ?e w)))"
      and dd: "header_written (snd (WAVEncoder_write ?e w))"
      and f: "size_limit (snd (WAVEncoder_write ?e w))
             = size_limit ?e - int (min (length w) (nat (size_limit ?e)))"
      and g: "is_open (snd (WAVEncoder_write ?e w)) = (int (length w) < size_limit ?e)"
      by blast
    have w2: "written st2 = written st0 @ wav_header_bytes (audioInfo e0) @ take d (concat (ws @ [w]))"
      using b wr hw e0 True n by (cases "ws = []") auto
    show ?thesis
      unfolding write_all_snoc
      using a w2 c dd f g sl True n by (auto simp: min_def)
  next
    case False
    then have cl: "\<not> is_open ?e" using op by simp
    from False assms(6) have ne: "ws \<noteq> []" by auto
    show ?thesis
      unfolding write_all_snoc write_closed [OF cl]
      using st' wr ns sl op hw False ne by (auto simp: min_def)
  qed
qed

lemma begin_bounded:
  assumes "stream_ptr e = Some st" "\<not> is_streamed ai" "0 < data_length ai"
    "data_length ai < 0x7fff0000"
  shows "stream_ptr (WAVEncoder_begin e ai) = Some st"
    "\<not> header_written (WAVEncoder_begin e ai)"
    "is_open (WAVEncoder_begin e ai)"
    "\<not> is_streamed (audioInfo (WAVEncoder_begin e ai))"
    "size_limit (WAVEncoder_begin e ai) = int (unat (data_length ai))"
  using assms by (auto simp: WAVEncoder_begin_def Let_def not_le)

text \<open>
  C3. A session begun in bounded mode (\<open>is_streamed\<close> false, \<open>0 < data_length < 0x7fff0000\<close>)
  on an attached sink, after any sequence \<open>ws\<close> of payload writes: the sink holds what it
  held before, the 44 header bytes (once a write was made) and the first \<open>data_length\<close>
  bytes of the payload offered, so exactly \<open>data_length\<close> payload bytes once more than
  that was offered; the session is open exactly while less than \<open>data_length\<close> bytes
  were offered, that is, while the remaining budget is positive; and once the budget is
  used up every further write takes the not-open path (outcome \<open>NotOpenFault\<close>), which
  hands back 0 and changes nothing.
\<close>

theorem WAVEncoder_bounded_budget:
  assumes "stream_ptr e = Some st" "\<not> is_streamed ai" "0 < data_length ai"
    "data_length ai < 0x7fff0000"
  shows "\<exists>st'. stream_ptr (write_all (WAVEncoder_begin e ai) ws) = Some st'
      \<and> written st' = written st
           @ (if ws = [] then [] else wav_header_bytes (audioInfo (WAVEncoder_begin e ai)))
           @ take (unat (data_length ai)) (concat ws)
      \<and> is_open (write_all (WAVEncoder_begin e ai) ws) = (length (concat ws) < unat (data_length ai))
      \<and> is_open (write_all (WAVEncoder_begin e ai) ws)
          = (0 < size_limit (write_all (WAVEncoder_begin e ai) ws))
      \<and> (unat (data_length ai) \<le> length (concat ws) \<longrightarrow>
           (\<forall>w. WAVEncoder_write (write_all (WAVEncoder_begin e ai) ws) w
                  = (NotOpenFault, write_all (WAVEncoder_begin e ai) ws)
              \<and> return_value (fst (WAVEncoder_write (write_all (WAVEncoder_begin e ai) ws) w)) = 0))"
proof -
  define d where "d = unat (data_length ai)"
  let ?e = "write_all (WAVEncoder_begin e ai) ws"
  have d: "0 < d" using assms(3) by (simp add: word_less_nat_alt d_def)
  have sl: "size_limit (WAVEncoder_begin e ai) = int d"
    using begin_bounded(5) [OF assms] by (simp add: d_def)
  from write_all_invariant [OF begin_bounded(1-4) [OF assms] sl d, of ws] obtain st' where
    a: "stream_ptr ?e = Some st'"
    and b: "written st' = written st
           @ (if ws = [] then [] else wav_header_bytes (audioInfo (WAVEncoder_begin e ai)))
           @ take d (concat ws)"
    and c: "size_limit ?e = int d - int (min d (length (concat ws)))"
    and o: "is_open ?e = (length (concat ws) < d)"
    by blast
  have o2: "is_open ?e = (0 < size_limit ?e)"
    using c o by (auto simp: min_def)
  have cl: "d \<le> length (concat ws) \<longrightarrow>
           (\<forall>w. WAVEncoder_write ?e w = (NotOpenFault, ?e)
              \<and> return_value (fst (WAVEncoder_write ?e w)) = 0)"
    using o by (auto simp: write_closed return_value_def)
  from a b o o2 cl show ?thesis unfolding d_def by blast
qed

theorem WAVEncoder_bounded_budget_witness:
  "stream_ptr (WAVEncoder_new Stream_new zero_info) = Some Stream_new
   \<and> \<not> is_streamed (example_info 1 3 47) \<and> 0 < data_length (example_info 1 3 47)
   \<and> data_length (example_info 1 3 47) < 0x7fff0000
   \<and> (\<exists>st'. stream_ptr (write_all (WAVEncoder_begin (WAVEncoder_new Stream_new zero_info)
                  (example_info 1 3 47)) [[1, 2], [3, 4], [5]]) = Some st'
        \<and> drop 44 (written st') = [1, 2, 3]
        \<and> \<not> is_open (write_all (WAVEncoder_begin (WAVEncoder_new Stream_new zero_info)
                  (example_info 1 3 47)) [[1, 2], [3, 4], [5]])
        \<and> return_value (fst (WAVEncoder_write (write_all (WAVEncoder_begin
              (WAVEncoder_new Stream_new zero_info) (example_info 1 3 47)) [[1, 2], [3, 4], [5]]) [6])) = 0)"
proof -
  have h: "stream_ptr (WAVEncoder_new Stream_new zero_info) = Some Stream_new"
    "\<not> is_streamed (example_info 1 3 47)" "0 < data_length (example_info 1 3 47)"
    "data_length (example_info 1 3 47) < 0x7fff0000"
    by (simp_all add: WAVEncoder_new_def example_info_def)
  have d: "unat (data_length (example_info 1 3 47)) = 3"
    by (simp add: example_info_def)
  show ?thesis
    using WAVEncoder_bounded_budget [OF h, of "[[1, 2], [3, 4], [5]]"] h
    by (auto simp: d length_wav_header_bytes Stream_new_def)
qed


section \<open>The decoder\<close>








section \<open>The header scan\<close>

text \<open>
  A read either takes the byte at the cursor, which is then below \<open>len\<close>, and moves
  the cursor on by one, or it returns \<open>-1\<close> and leaves the state as it is.
\<close>

lemma getChar_bounds:
  "(data_pos s < len s \<and> getChar s = (ucast (buffer s ! unat (data_pos s)), move_to (data_pos s + 1) s))
   \<or> (\<not> data_pos s < len s \<and> getChar s = (- 1, s))"
  by (simp add: getChar_def)

text \<open>
  C9. The claim: within one scan the cursor never moves back. On a buffer of 16 zero
  bytes the scan reads a tag and a length of 0, takes the length for the streaming
  signal \<^verbatim>\<open>~0\<close> and seeks by it: as a 32-bit \<^verbatim>\<open>long\<close> that offset is \<open>-1\<close>, and the
  cursor goes from 8 back to 7 (and later from 15 back to 14). The values of the cursor,
  in order:
\<close>

theorem WAVHeader_cursor_moves_back:
  "map_option (\<lambda>s. rev (visited s)) (WAVHeader_begin WAVHeader_new (replicate 16 0) 16)
     = Some [1, 2, 3, 4, 5, 6, 7, 8, 7, 8, 9, 10, 11, 12, 13, 14, 15, 14, 15, 16]"
  by code_simp


subsection \<open>The cursor inside the buffer\<close>

lemma unat_plus_in:
  fixes p l :: u32
  assumes "unat p + k \<le> unat l"
  shows "unat (p + of_nat k) = unat p + k"
proof -
  have l: "unat l < 2 ^ 32" using unsigned_less [of l] by simp
  then have k: "k < 2 ^ 32" using assms by simp
  then have uk: "unat (of_nat k :: u32) = k" by (simp add: unat_of_nat)
  have "unat p + unat (of_nat k :: u32) < 2 ^ LENGTH(32)"
    using assms l uk by simp
  then show ?thesis using uk by (simp add: unat_add_lem [THEN iffD1])
qed

lemma getChar_in:
  "unat (data_pos s) < unat (len s) \<Longrightarrow>
   getChar s = (ucast (buffer s ! unat (data_pos s)), move_to (data_pos s + 1) s)"
  by (simp add: getChar_def word_less_nat_alt)

lemma move_to_proj [simp]:
  "data_pos (move_to p s) = p" "buffer (move_to p s) = buffer s" "len (move_to p s) = len s"
  "sound_pos (move_to p s) = sound_pos s" "headerInfo (move_to p s) = headerInfo s"
  by (simp_all add: move_to_def)

lemma read_int32_in:
  assumes "unat (data_pos s) + 4 \<le> unat (len s)"
  shows "fst (read_int32 s) = rd32 (buffer s) (unat (data_pos s))"
    and "advanced s 4 (snd (read_int32 s))"
proof -
  let ?p = "data_pos s"
  define s1 where "s1 = move_to (?p + 1) s"
  define s2 where "s2 = move_to (?p + 1 + 1) s1"
  define s3 where "s3 = move_to (?p + 1 + 1 + 1) s2"
  define s4 where "s4 = move_to (?p + 1 + 1 + 1 + 1) s3"
  have u: "unat (?p + 1) = unat ?p + 1" "unat (?p + 1 + 1) = unat ?p + 2"
    "unat (?p + 1 + 1 + 1) = unat ?p + 3"
    using assms by unat_arith+
  have g: "getChar s = (ucast (buffer s ! unat ?p), s1)"
    "getChar s1 = (ucast (buffer s ! (unat ?p + 1)), s2)"
    "getChar s2 = (ucast (buffer s ! (unat ?p + 2)), s3)"
    "getChar s3 = (ucast (buffer s ! (unat ?p + 3)), s4)"
    using assms u by (simp_all add: getChar_def word_less_nat_alt s1_def s2_def s3_def s4_def)
  show "fst (read_int32 s) = rd32 (buffer s) (unat (data_pos s))"
    by (simp add: read_int32_def g rd32_def or.assoc)
  have "snd (read_int32 s) = s4"
    by (simp add: read_int32_def g)
  then show "advanced s 4 (snd (read_int32 s))"
    by (simp add: advanced_def s1_def s2_def s3_def s4_def)
qed

lemma read_tag_in:
  assumes "unat (data_pos s) + 4 \<le> unat (len s)"
  shows "fst (read_tag s) = tag_at (buffer s) (unat (data_pos s))"
    and "advanced s 4 (snd (read_tag s))"
proof -
  let ?p = "data_pos s"
  define s1 where "s1 = move_to (?p + 1) s"
  define s2 where "s2 = move_to (?p + 1 + 1) s1"
  define s3 where "s3 = move_to (?p + 1 + 1 + 1) s2"
  define s4 where "s4 = move_to (?p + 1 + 1 + 1 + 1) s3"
  have u: "unat (?p + 1) = unat ?p + 1" "unat (?p + 1 + 1) = unat ?p + 2"
    "unat (?p + 1 + 1 + 1) = unat ?p + 3"
    using assms by unat_arith+
  have g: "getChar s = (ucast (buffer s ! unat ?p), s1)"
    "getChar s1 = (ucast (buffer s ! (unat ?p + 1)), s2)"
    "getChar s2 = (ucast (buffer s ! (unat ?p + 2)), s3)"
    "getChar s3 = (ucast (buffer s ! (unat ?p + 3)), s4)"
    using assms u by (simp_all add: getChar_def word_less_nat_alt s1_def s2_def s3_def s4_def)
  show "fst (read_tag s) = tag_at (buffer s) (unat (data_pos s))"
    by (simp add: read_tag_def g tag_at_def push_bit_or or.assoc)
  have "snd (read_tag s) = s4"
    by (simp add: read_tag_def g)
  then show "advanced s 4 (snd (read_tag s))"
    by (simp add: advanced_def s1_def s2_def s3_def s4_def)
qed

lemma read_int16_in:
  assumes "unat (data_pos s) + 2 \<le> unat (len s)"
  shows "fst (read_int16 s) = rd16 (buffer s) (unat (data_pos s))"
    and "advanced s 2 (snd (read_int16 s))"
proof -
  let ?p = "data_pos s"
  define s1 where "s1 = move_to (?p + 1) s"
  define s2 where "s2 = move_to (?p + 1 + 1) s1"
  have u: "unat (?p + 1) = unat ?p + 1"
    using assms by unat_arith+
  have g: "getChar s = (ucast (buffer s ! unat ?p), s1)"
    "getChar s1 = (ucast (buffer s ! (unat ?p + 1)), s2)"
    using assms u by (simp_all add: getChar_def word_less_nat_alt s1_def s2_def)
  have b: "(ucast ((ucast (ucast ((0::u32) OR push_bit 0 (ucast x :: u32)) :: u16) :: u32)
           OR push_bit 8 (ucast y :: u32)) :: u16) = ucast x OR push_bit 8 (ucast y)" for x y :: byte
  proof (rule bit_word_eqI)
    fix n assume "n < LENGTH(16)"
    then consider "n < 8" | "8 \<le> n" "n < 16" by fastforce
    then show "bit (ucast ((ucast (ucast ((0::u32) OR push_bit 0 (ucast x :: u32)) :: u16) :: u32)
           OR push_bit 8 (ucast y :: u32)) :: u16) n = bit (ucast x OR push_bit 8 (ucast y) :: u16) n"
      by cases (auto simp: bit_simps)
  qed
  show "fst (read_int16 s) = rd16 (buffer s) (unat (data_pos s))"
    using b by (simp add: read_int16_def g rd16_def)
  have "snd (read_int16 s) = s2"
    by (simp add: read_int16_def g)
  then show "advanced s 2 (snd (read_int16 s))"
    by (simp add: advanced_def s1_def s2_def)
qed

lemma skip_loop_in:
  "unat (data_pos s) + k \<le> unat (len s) \<Longrightarrow> advanced s k (skip_loop k s)"
proof (induction k arbitrary: s)
  case 0
  then show ?case by (simp add: advanced_def)
next
  case (Suc k)
  have g: "getChar s = (ucast (buffer s ! unat (data_pos s)), move_to (data_pos s + 1) s)"
    using Suc.prems by (simp add: getChar_in)
  have u: "unat (data_pos s + 1) = unat (data_pos s) + 1"
    using Suc.prems by unat_arith
  have "advanced (move_to (data_pos s + 1) s) k (skip_loop k (move_to (data_pos s + 1) s))"
    using Suc.prems u by (intro Suc.IH) simp
  then show ?case
    by (simp add: g advanced_def)
qed


lemma cursor_advanced:
  assumes "cursor_at s b l p hi sp" "advanced s k s'" "p + k \<le> l"
  shows "cursor_at s' b l (p + k) hi sp"
proof -
  have "unat (data_pos s) + k \<le> unat (len s)"
    using assms(1,3) by (simp add: cursor_at_def)
  then have "unat (data_pos s + of_nat k) = unat (data_pos s) + k"
    by (rule unat_plus_in)
  then show ?thesis
    using assms(1,2) by (simp add: cursor_at_def advanced_def)
qed

lemma read_tag_at:
  assumes "cursor_at s b l p hi sp" "q = p + 4" "q \<le> l"
  shows "\<exists>s'. read_tag s = (tag_at b p, s') \<and> cursor_at s' b l q hi sp"
proof -
  have le: "p + 4 \<le> l" using assms(2,3) by simp
  have ib: "unat (data_pos s) + 4 \<le> unat (len s)"
    using assms by (simp add: cursor_at_def)
  have "read_tag s = (tag_at b p, snd (read_tag s))"
    using read_tag_in(1) [OF ib] assms(1) by (simp add: cursor_at_def prod_eq_iff)
  moreover have "cursor_at (snd (read_tag s)) b l q hi sp"
    using cursor_advanced [OF assms(1) read_tag_in(2) [OF ib] le] assms(2) by simp
  ultimately show ?thesis by blast
qed

lemma read_int32_at:
  assumes "cursor_at s b l p hi sp" "q = p + 4" "q \<le> l"
  shows "\<exists>s'. read_int32 s = (rd32 b p, s') \<and> cursor_at s' b l q hi sp"
proof -
  have le: "p + 4 \<le> l" using assms(2,3) by simp
  have ib: "unat (data_pos s) + 4 \<le> unat (len s)"
    using assms by (simp add: cursor_at_def)
  have "read_int32 s = (rd32 b p, snd (read_int32 s))"
    using read_int32_in(1) [OF ib] assms(1) by (simp add: cursor_at_def prod_eq_iff)
  moreover have "cursor_at (snd (read_int32 s)) b l q hi sp"
    using cursor_advanced [OF assms(1) read_int32_in(2) [OF ib] le] assms(2) by simp
  ultimately show ?thesis by blast
qed

lemma read_int16_at:
  assumes "cursor_at s b l p hi sp" "q = p + 2" "q \<le> l"
  shows "\<exists>s'. read_int16 s = (rd16 b p, s') \<and> cursor_at s' b l q hi sp"
proof -
  have le: "p + 2 \<le> l" using assms(2,3) by simp
  have ib: "unat (data_pos s) + 2 \<le> unat (len s)"
    using assms by (simp add: cursor_at_def)
  have "read_int16 s = (rd16 b p, snd (read_int16 s))"
    using read_int16_in(1) [OF ib] assms(1) by (simp add: cursor_at_def prod_eq_iff)
  moreover have "cursor_at (snd (read_int16 s)) b l q hi sp"
    using cursor_advanced [OF assms(1) read_int16_in(2) [OF ib] le] assms(2) by simp
  ultimately show ?thesis by blast
qed

lemma sint_small:
  fixes n :: u32
  assumes "unat n < 2 ^ 31"
  shows "nat (sint n) = unat n"
proof -
  have "sint n = signed_take_bit 31 (uint n)"
    by (simp add: sint_uint)
  also have "\<dots> = uint n"
  proof (rule signed_take_bit_int_eq_self)
    show "- (2 ^ 31) \<le> uint n" by (rule order_trans [of _ 0]) simp_all
    have "int (unat n) < int (2 ^ 31)" using assms by (rule iffD2 [OF of_nat_less_iff])
    then show "uint n < 2 ^ 31" by simp
  qed
  finally show ?thesis by simp
qed

lemma skip_at:
  assumes "cursor_at s b l p hi sp" "q = p + unat n" "q \<le> l" "unat n < 2 ^ 31"
  shows "cursor_at (skip n s) b l q hi sp"
proof -
  have le: "p + unat n \<le> l" using assms(2,3) by simp
  have ib: "unat (data_pos s) + unat n \<le> unat (len s)"
    using assms by (simp add: cursor_at_def)
  have "advanced s (unat n) (skip n s)"
    using skip_loop_in [OF ib] by (simp add: skip_def sint_small [OF assms(4)])
  from cursor_advanced [OF assms(1) this le] assms(2) show ?thesis by simp
qed

lemma upd_info_at:
  "cursor_at s b l p hi sp \<Longrightarrow> cursor_at (upd_info f s) b l p (f hi) sp"
  by (simp add: cursor_at_def upd_info_def)

lemma seek_at:
  assumes "cursor_at s b l p hi sp" "q = p + unat off" "q < 2 ^ 32"
  shows "cursor_at (seek off SEEK_CUR s) b l q hi sp"
proof -
  have "unat (data_pos s) + unat off < 2 ^ LENGTH(32)"
    using assms by (simp add: cursor_at_def)
  then have "unat (data_pos s + off) = unat (data_pos s) + unat off"
    by (simp add: unat_add_lem [THEN iffD1])
  then show ?thesis
    using assms(1,2) by (simp add: cursor_at_def seek_def move_to_def)
qed

lemma eof_at:
  assumes "cursor_at s b l p hi sp" "0 < l"
  shows "eof s = (l \<le> p + 1)"
proof -
  have "1 \<le> len s"
    using assms by (simp add: cursor_at_def word_le_nat_alt)
  then have "unat (len s - 1) = unat (len s) - 1"
    by (simp add: unat_sub)
  then show ?thesis
    using assms by (auto simp: eof_def word_le_nat_alt cursor_at_def)
qed

lemma riff_chunks_end: "rlen < 8 \<Longrightarrow> riff_chunks rlen s = (False, rlen, s)"
  by (subst riff_chunks.simps) (simp flip: not_le)


lemma ucast16_inj: "((ucast (x :: u16) :: u32) = 0xfffe) = (x = 0xfffe)"
proof
  assume "(ucast x :: u32) = 0xfffe"
  then have "(ucast (ucast x :: u32) :: u16) = ucast (0xfffe :: u32)" by simp
  then show "x = 0xfffe" by (simp add: ucast_down_ucast_id is_down)
next
  assume "x = 0xfffe" then show "(ucast x :: u32) = 0xfffe" by simp
qed

lemma riff_chunks_fmt:
  assumes a: "cursor_at s b l p hi sp"
    and rl: "8 \<le> rlen"
    and ib: "p + 8 + unat n \<le> l"
    and tg: "tag_at b p = TAG CHR ''f'' CHR ''m'' CHR ''t'' CHR '' ''"
    and n: "rd32 b (p + 4) = n"
    and n16: "16 \<le> n" and nr: "n \<le> rlen - 8" and n31: "unat n < 2 ^ 31"
    and fm: "rd16 b (p + 8) \<noteq> 0xfffe"
  shows "\<exists>s'. riff_chunks rlen s = riff_chunks (rlen - 8 - n) s'
           \<and> cursor_at s' b l (p + 8 + unat n)
                (hi\<lparr>format := ucast (rd16 b (p + 8)),
                    channels := ucast (rd16 b (p + 10)),
                    sample_rate := rd32 b (p + 12),
                    byte_rate := rd32 b (p + 16),
                    block_align := ucast (rd16 b (p + 20)),
                    bits_per_sample := ucast (rd16 b (p + 22)),
                    is_valid := True\<rparr>) sp"
proof -
  have n16': "16 \<le> unat n" using n16 by (simp add: word_le_nat_alt)
  have un: "unat (n - 16) = unat n - 16" using n16 by (simp add: unat_sub)
  from read_tag_at [OF a, of "p + 4"] ib obtain s1 where
    r1: "read_tag s = (tag_at b p, s1)" and a1: "cursor_at s1 b l (p + 4) hi sp"
    by auto
  have e1: "\<not> eof s1"
    using eof_at [OF a1] ib n16' by simp
  from read_int32_at [OF a1, of "p + 8"] ib obtain s2 where
    r2: "read_int32 s1 = (n, s2)" and a2: "cursor_at s2 b l (p + 8) hi sp"
    using n by auto
  from read_int16_at [OF a2, of "p + 10"] ib n16' obtain s3 where
    r3: "read_int16 s2 = (rd16 b (p + 8), s3)" and a3: "cursor_at s3 b l (p + 10) hi sp"
    by auto
  let ?f3 = "\<lambda>i. i\<lparr>format := ucast (rd16 b (p + 8))\<rparr>"
  from read_int16_at [OF upd_info_at [OF a3, of ?f3], of "p + 12"] ib n16' obtain s4 where
    r4: "read_int16 (upd_info ?f3 s3) = (rd16 b (p + 10), s4)"
    and a4: "cursor_at s4 b l (p + 12) (?f3 hi) sp"
    by auto
  let ?f4 = "\<lambda>i. i\<lparr>channels := ucast (rd16 b (p + 10))\<rparr>"
  from read_int32_at [OF upd_info_at [OF a4, of ?f4], of "p + 16"] ib n16' obtain s5 where
    r5: "read_int32 (upd_info ?f4 s4) = (rd32 b (p + 12), s5)"
    and a5: "cursor_at s5 b l (p + 16) (?f4 (?f3 hi)) sp"
    by auto
  let ?f5 = "\<lambda>i. i\<lparr>sample_rate := rd32 b (p + 12)\<rparr>"
  from read_int32_at [OF upd_info_at [OF a5, of ?f5], of "p + 20"] ib n16' obtain s6 where
    r6: "read_int32 (upd_info ?f5 s5) = (rd32 b (p + 16), s6)"
    and a6: "cursor_at s6 b l (p + 20) (?f5 (?f4 (?f3 hi))) sp"
    by auto
  let ?f6 = "\<lambda>i. i\<lparr>byte_rate := rd32 b (p + 16)\<rparr>"
  from read_int16_at [OF upd_info_at [OF a6, of ?f6], of "p + 22"] ib n16' obtain s7 where
    r7: "read_int16 (upd_info ?f6 s6) = (rd16 b (p + 20), s7)"
    and a7: "cursor_at s7 b l (p + 22) (?f6 (?f5 (?f4 (?f3 hi)))) sp"
    by auto
  let ?f7 = "\<lambda>i. i\<lparr>block_align := ucast (rd16 b (p + 20))\<rparr>"
  from read_int16_at [OF upd_info_at [OF a7, of ?f7], of "p + 24"] ib n16' obtain s8 where
    r8: "read_int16 (upd_info ?f7 s7) = (rd16 b (p + 22), s8)"
    and a8: "cursor_at s8 b l (p + 24) (?f7 (?f6 (?f5 (?f4 (?f3 hi))))) sp"
    by auto
  let ?f8 = "\<lambda>i. i\<lparr>bits_per_sample := ucast (rd16 b (p + 22))\<rparr>"
  let ?s8 = "upd_info ?f8 s8"
  have a8': "cursor_at ?s8 b l (p + 24) (?f8 (?f7 (?f6 (?f5 (?f4 (?f3 hi)))))) sp"
    by (rule upd_info_at [OF a8])
  have fmt8: "format (headerInfo ?s8) \<noteq> 0xfffe"
    using a8' fm by (simp add: cursor_at_def ucast16_inj)
  let ?s9 = "upd_info (\<lambda>i. i\<lparr>is_valid := True\<rparr>) (skip (n - 16) ?s8)"
  have "cursor_at (skip (n - 16) ?s8) b l (p + 8 + unat n)
          (?f8 (?f7 (?f6 (?f5 (?f4 (?f3 hi)))))) sp"
    using ib n16' n31 un by (intro skip_at [OF a8']) simp_all
  then have a9: "cursor_at ?s9 b l (p + 8 + unat n)
          ((?f8 (?f7 (?f6 (?f5 (?f4 (?f3 hi))))))\<lparr>is_valid := True\<rparr>) sp"
    by (rule upd_info_at)
  have nn: "\<not> n < 16" "\<not> rlen - 8 < n"
    using n16 nr by simp_all
  have "riff_chunks rlen s = riff_chunks (rlen - 8 - n) ?s9"
    apply (subst riff_chunks.simps)
    using rl r1 e1 r2 nn tg r3 r4 r5 r6 r7 r8 fmt8
    apply (simp add: Let_def)
    done
  with a9 show ?thesis by auto
qed

lemma tag_values:
  "TAG CHR ''R'' CHR ''I'' CHR ''F'' CHR ''F'' = 0x52494646"
  "TAG CHR ''W'' CHR ''A'' CHR ''V'' CHR ''E'' = 0x57415645"
  "TAG CHR ''f'' CHR ''m'' CHR ''t'' CHR '' '' = 0x666d7420"
  "TAG CHR ''d'' CHR ''a'' CHR ''t'' CHR ''a'' = 0x64617461"
  by (simp_all add: TAG_def)

lemma sound_pos_at:
  "cursor_at s b l p hi sp \<Longrightarrow> cursor_at (s\<lparr>sound_pos := tell s\<rparr>) b l p hi (of_nat p)"
  by (auto simp: cursor_at_def tell_def)

lemma riff_chunks_data:
  assumes a: "cursor_at s b l p hi sp"
    and rl: "8 \<le> rlen"
    and ib: "p + 8 \<le> l"
    and tg: "tag_at b p = TAG CHR ''d'' CHR ''a'' CHR ''t'' CHR ''a''"
    and d: "rd32 b (p + 4) = d"
    and dr: "d \<le> rlen - 8" and d0: "d \<noteq> 0" and ns: "\<not> is_streamed hi"
    and nw: "p + 8 + unat d < 2 ^ 32"
  shows "\<exists>s'. riff_chunks rlen s = riff_chunks (rlen - 8 - d) s'
           \<and> cursor_at s' b l (p + 8 + unat d) (hi\<lparr>data_length := d\<rparr>) (of_nat (p + 8))"
proof -
  from read_tag_at [OF a, of "p + 4"] ib obtain s1 where
    r1: "read_tag s = (tag_at b p, s1)" and a1: "cursor_at s1 b l (p + 4) hi sp"
    by auto
  have e1: "\<not> eof s1"
    using eof_at [OF a1] ib by simp
  from read_int32_at [OF a1, of "p + 8"] ib obtain s2 where
    r2: "read_int32 s1 = (d, s2)" and a2: "cursor_at s2 b l (p + 8) hi sp"
    using d by auto
  let ?s3 = "upd_info (\<lambda>i. i\<lparr>data_length := d\<rparr>) (s2\<lparr>sound_pos := tell s2\<rparr>)"
  have a3: "cursor_at ?s3 b l (p + 8) (hi\<lparr>data_length := d\<rparr>) (of_nat (p + 8))"
    by (rule upd_info_at [OF sound_pos_at [OF a2]])
  have h3: "headerInfo ?s3 = hi\<lparr>data_length := d\<rparr>"
    using a3 by (simp add: cursor_at_def)
  have a4: "cursor_at (seek d SEEK_CUR ?s3) b l (p + 8 + unat d) (hi\<lparr>data_length := d\<rparr>) (of_nat (p + 8))"
    using nw by (intro seek_at [OF a3]) simp_all
  have nn: "\<not> rlen - 8 < d"
    using dr by simp
  have "riff_chunks rlen s = riff_chunks (rlen - 8 - d) (seek d SEEK_CUR ?s3)"
    apply (subst riff_chunks.simps)
    using rl r1 e1 r2 nn tg d0 ns h3
    apply (simp add: Let_def tag_values)
    done
  with a4 show ?thesis by auto
qed

lemma riff_chunks_data_streamed:
  assumes a: "cursor_at s b l p hi sp"
    and rl: "8 \<le> rlen"
    and ib: "p + 8 \<le> l"
    and tg: "tag_at b p = TAG CHR ''d'' CHR ''a'' CHR ''t'' CHR ''a''"
    and d: "rd32 b (p + 4) = d"
    and dr: "d \<le> rlen - 8" and st: "d = 0 \<or> is_streamed hi"
  shows "\<exists>s'. riff_chunks rlen s = (True, rlen - 8, s')
           \<and> cursor_at s' b l (p + 8) (hi\<lparr>data_length := d, is_streamed := True\<rparr>) (of_nat (p + 8))"
proof -
  from read_tag_at [OF a, of "p + 4"] ib obtain s1 where
    r1: "read_tag s = (tag_at b p, s1)" and a1: "cursor_at s1 b l (p + 4) hi sp"
    by auto
  have e1: "\<not> eof s1"
    using eof_at [OF a1] ib by simp
  from read_int32_at [OF a1, of "p + 8"] ib obtain s2 where
    r2: "read_int32 s1 = (d, s2)" and a2: "cursor_at s2 b l (p + 8) hi sp"
    using d by auto
  let ?s3 = "upd_info (\<lambda>i. i\<lparr>data_length := d\<rparr>) (s2\<lparr>sound_pos := tell s2\<rparr>)"
  let ?s4 = "upd_info (\<lambda>i. i\<lparr>is_streamed := True\<rparr>) ?s3"
  have a3: "cursor_at ?s3 b l (p + 8) (hi\<lparr>data_length := d\<rparr>) (of_nat (p + 8))"
    by (rule upd_info_at [OF sound_pos_at [OF a2]])
  have h3: "headerInfo ?s3 = hi\<lparr>data_length := d\<rparr>"
    using a3 by (simp add: cursor_at_def)
  have a4: "cursor_at ?s4 b l (p + 8) (hi\<lparr>data_length := d, is_streamed := True\<rparr>) (of_nat (p + 8))"
    using upd_info_at [OF a3, of "\<lambda>i. i\<lparr>is_streamed := True\<rparr>"] by simp
  have nn: "\<not> rlen - 8 < d"
    using dr by simp
  have "riff_chunks rlen s = (True, rlen - 8, ?s4)"
    apply (subst riff_chunks.simps)
    using rl r1 e1 r2 nn tg st h3
    apply (simp add: Let_def tag_values)
    done
  with a4 show ?thesis by auto
qed

lemma scan_eof: "eof s \<Longrightarrow> scan_loop s = Some s"
  by (subst scan_loop.simps) simp

lemma scan_riff_wave:
  assumes a: "cursor_at s b l p hi sp"
    and ib: "p + 12 \<le> l"
    and t1: "tag_at b p = TAG CHR ''R'' CHR ''I'' CHR ''F'' CHR ''F''"
    and L: "rd32 b (p + 4) = L"
    and t2: "tag_at b (p + 8) = TAG CHR ''W'' CHR ''A'' CHR ''V'' CHR ''E''"
    and L4: "L = 0 \<or> 4 \<le> L"
  shows "\<exists>s'. scan_loop s =
             (case riff_chunks ((if L = 0 \<or> 0x7fff0000 \<le> L then NOT 0 else L) - 4) s' of
                (returned, rlen, s'') \<Rightarrow>
                  if returned then Some s''
                  else scan_loop (if rlen > 0 then seek rlen SEEK_CUR s'' else s''))
           \<and> cursor_at s' b l (p + 12)
                (if L = 0 \<or> 0x7fff0000 \<le> L then hi\<lparr>is_streamed := True\<rparr> else hi) sp"
proof -
  let ?st = "L = 0 \<or> 0x7fff0000 \<le> L"
  let ?hi = "if ?st then hi\<lparr>is_streamed := True\<rparr> else hi"
  have e0: "\<not> eof s"
    using eof_at [OF a] ib by simp
  from read_tag_at [OF a, of "p + 4"] ib obtain s1 where
    r1: "read_tag s = (tag_at b p, s1)" and a1: "cursor_at s1 b l (p + 4) hi sp"
    by auto
  have e1: "\<not> eof s1"
    using eof_at [OF a1] ib by simp
  from read_int32_at [OF a1, of "p + 8"] ib obtain s2 where
    r2: "read_int32 s1 = (L, s2)" and a2: "cursor_at s2 b l (p + 8) hi sp"
    using L by auto
  let ?s3 = "if ?st then upd_info (\<lambda>i. i\<lparr>is_streamed := True\<rparr>) s2 else s2"
  have a3: "cursor_at ?s3 b l (p + 8) ?hi sp"
    using a2 upd_info_at [OF a2, of "\<lambda>i. i\<lparr>is_streamed := True\<rparr>"] by simp
  from read_tag_at [OF a3, of "p + 12"] ib obtain s4 where
    r4: "read_tag ?s3 = (tag_at b (p + 8), s4)" and a4: "cursor_at s4 b l (p + 12) ?hi sp"
    by auto
  have n4: "\<not> (if ?st then NOT 0 else L) < 4"
    using L4 by (auto simp: not_less)
  have "scan_loop s =
             (case riff_chunks ((if ?st then NOT 0 else L) - 4) s4 of
                (returned, rlen, s'') \<Rightarrow>
                  if returned then Some s''
                  else scan_loop (if rlen > 0 then seek rlen SEEK_CUR s'' else s''))"
    apply (subst scan_loop.simps)
    using e0 r1 e1 r2 t1 t2 r4 n4
    apply (simp add: Let_def)
    done
  with a4 show ?thesis by blast
qed

subsection \<open>The bytes of a canonical file\<close>

lemma lengths [simp]: "length (le32 x) = 4" "length (le16 y) = 2" "length (cstr cs) = length cs"
  by (simp_all add: le32_def le16_def cstr_def)

lemma rd32_in0: "rd32 (pre @ le32 x @ post) (length pre) = x"
proof -
  have "(ucast (ucast x :: byte) :: u32)
         OR push_bit 8 (ucast (ucast (drop_bit 8 x) :: byte))
         OR push_bit 16 (ucast (ucast (drop_bit 16 x) :: byte))
         OR push_bit 24 (ucast (ucast (drop_bit 24 x) :: byte)) = x"
  proof (rule bit_word_eqI)
    fix n assume "n < LENGTH(32)"
    then consider "n < 8" | "8 \<le> n" "n < 16" | "16 \<le> n" "n < 24" | "24 \<le> n" "n < 32"
      by fastforce
    then show "bit ((ucast (ucast x :: byte) :: u32)
         OR push_bit 8 (ucast (ucast (drop_bit 8 x) :: byte))
         OR push_bit 16 (ucast (ucast (drop_bit 16 x) :: byte))
         OR push_bit 24 (ucast (ucast (drop_bit 24 x) :: byte))) n = bit x n"
      by cases (auto simp: bit_simps)
  qed
  then show ?thesis by (simp add: rd32_def le32_def nth_append)
qed

lemma rd16_in0: "rd16 (pre @ le16 x @ post) (length pre) = x"
proof -
  have "(ucast (ucast x :: byte) :: u16) OR push_bit 8 (ucast (ucast (drop_bit 8 x) :: byte)) = x"
  proof (rule bit_word_eqI)
    fix n assume "n < LENGTH(16)"
    then consider "n < 8" | "8 \<le> n" "n < 16" by fastforce
    then show "bit ((ucast (ucast x :: byte) :: u16)
           OR push_bit 8 (ucast (ucast (drop_bit 8 x) :: byte))) n = bit x n"
      by cases (auto simp: bit_simps)
  qed
  then show ?thesis by (simp add: rd16_def le16_def nth_append)
qed

lemma rd32_in: "i = length pre \<Longrightarrow> rd32 (pre @ le32 x @ post) i = x"
  by (simp add: rd32_in0)

lemma rd16_in: "i = length pre \<Longrightarrow> rd16 (pre @ le16 x @ post) i = x"
  by (simp add: rd16_in0)

lemma tag_RIFF_in:
  "i = length pre \<Longrightarrow> tag_at (pre @ cstr ''RIFF'' @ post) i = TAG CHR ''R'' CHR ''I'' CHR ''F'' CHR ''F''"
  by (simp add: tag_at_def cstr_def TAG_def nth_append)

lemma tag_WAVE_in:
  "i = length pre \<Longrightarrow> tag_at (pre @ cstr ''WAVE'' @ post) i = TAG CHR ''W'' CHR ''A'' CHR ''V'' CHR ''E''"
  by (simp add: tag_at_def cstr_def TAG_def nth_append)

lemma tag_fmt_in:
  "i = length pre \<Longrightarrow> tag_at (pre @ cstr ''fmt '' @ post) i = TAG CHR ''f'' CHR ''m'' CHR ''t'' CHR '' ''"
  by (simp add: tag_at_def cstr_def TAG_def nth_append)

lemma tag_data_in:
  "i = length pre \<Longrightarrow> tag_at (pre @ cstr ''data'' @ post) i = TAG CHR ''d'' CHR ''a'' CHR ''t'' CHR ''a''"
  by (simp add: tag_at_def cstr_def TAG_def nth_append)

lemma wav_file_0:
  "tag_at (wav_file riff_size fmt_size fmt_code nch rate brate balign bits extra data_size rest) (0) = TAG CHR ''R'' CHR ''I'' CHR ''F'' CHR ''F''"
  using tag_RIFF_in [of "0" "[]" "le32 riff_size @ cstr ''WAVE'' @ cstr ''fmt '' @ le32 fmt_size @ le16 fmt_code @ le16 nch @ le32 rate @ le32 brate @ le16 balign @ le16 bits @ extra @ cstr ''data'' @ le32 data_size @ rest"]
  by (simp add: wav_file_def)

lemma wav_file_1:
  "rd32 (wav_file riff_size fmt_size fmt_code nch rate brate balign bits extra data_size rest) (4) = riff_size"
  using rd32_in [of "4" "cstr ''RIFF''" "riff_size" "cstr ''WAVE'' @ cstr ''fmt '' @ le32 fmt_size @ le16 fmt_code @ le16 nch @ le32 rate @ le32 brate @ le16 balign @ le16 bits @ extra @ cstr ''data'' @ le32 data_size @ rest"]
  by (simp add: wav_file_def)

lemma wav_file_2:
  "tag_at (wav_file riff_size fmt_size fmt_code nch rate brate balign bits extra data_size rest) (8) = TAG CHR ''W'' CHR ''A'' CHR ''V'' CHR ''E''"
  using tag_WAVE_in [of "8" "cstr ''RIFF'' @ le32 riff_size" "cstr ''fmt '' @ le32 fmt_size @ le16 fmt_code @ le16 nch @ le32 rate @ le32 brate @ le16 balign @ le16 bits @ extra @ cstr ''data'' @ le32 data_size @ rest"]
  by (simp add: wav_file_def)

lemma wav_file_3:
  "tag_at (wav_file riff_size fmt_size fmt_code nch rate brate balign bits extra data_size rest) (12) = TAG CHR ''f'' CHR ''m'' CHR ''t'' CHR '' ''"
  using tag_fmt_in [of "12" "cstr ''RIFF'' @ le32 riff_size @ cstr ''WAVE''" "le32 fmt_size @ le16 fmt_code @ le16 nch @ le32 rate @ le32 brate @ le16 balign @ le16 bits @ extra @ cstr ''data'' @ le32 data_size @ rest"]
  by (simp add: wav_file_def)

lemma wav_file_4:
  "rd32 (wav_file riff_size fmt_size fmt_code nch rate brate balign bits extra data_size rest) (16) = fmt_size"
  using rd32_in [of "16" "cstr ''RIFF'' @ le32 riff_size @ cstr ''WAVE'' @ cstr ''fmt ''" "fmt_size" "le16 fmt_code @ le16 nch @ le32 rate @ le32 brate @ le16 balign @ le16 bits @ extra @ cstr ''data'' @ le32 data_size @ rest"]
  by (simp add: wav_file_def)

lemma wav_file_5:
  "rd16 (wav_file riff_size fmt_size fmt_code nch rate brate balign bits extra data_size rest) (20) = fmt_code"
  using rd16_in [of "20" "cstr ''RIFF'' @ le32 riff_size @ cstr ''WAVE'' @ cstr ''fmt '' @ le32 fmt_size" "fmt_code" "le16 nch @ le32 rate @ le32 brate @ le16 balign @ le16 bits @ extra @ cstr ''data'' @ le32 data_size @ rest"]
  by (simp add: wav_file_def)

lemma wav_file_6:
  "rd16 (wav_file riff_size fmt_size fmt_code nch rate brate balign bits extra data_size rest) (22) = nch"
  using rd16_in [of "22" "cstr ''RIFF'' @ le32 riff_size @ cstr ''WAVE'' @ cstr ''fmt '' @ le32 fmt_size @ le16 fmt_code" "nch" "le32 rate @ le32 brate @ le16 balign @ le16 bits @ extra @ cstr ''data'' @ le32 data_size @ rest"]
  by (simp add: wav_file_def)

lemma wav_file_7:
  "rd32 (wav_file riff_size fmt_size fmt_code nch rate brate balign bits extra data_size rest) (24) = rate"
  using rd32_in [of "24" "cstr ''RIFF'' @ le32 riff_size @ cstr ''WAVE'' @ cstr ''fmt '' @ le32 fmt_size @ le16 fmt_code @ le16 nch" "rate" "le32 brate @ le16 balign @ le16 bits @ extra @ cstr ''data'' @ le32 data_size @ rest"]
  by (simp add: wav_file_def)

lemma wav_file_8:
  "rd32 (wav_file riff_size fmt_size fmt_code nch rate brate balign bits extra data_size rest) (28) = brate"
  using rd32_in [of "28" "cstr ''RIFF'' @ le32 riff_size @ cstr ''WAVE'' @ cstr ''fmt '' @ le32 fmt_size @ le16 fmt_code @ le16 nch @ le32 rate" "brate" "le16 balign @ le16 bits @ extra @ cstr ''data'' @ le32 data_size @ rest"]
  by (simp add: wav_file_def)

lemma wav_file_9:
  "rd16 (wav_file riff_size fmt_size fmt_code nch rate brate balign bits extra data_size rest) (32) = balign"
  using rd16_in [of "32" "cstr ''RIFF'' @ le32 riff_size @ cstr ''WAVE'' @ cstr ''fmt '' @ le32 fmt_size @ le16 fmt_code @ le16 nch @ le32 rate @ le32 brate" "balign" "le16 bits @ extra @ cstr ''data'' @ le32 data_size @ rest"]
  by (simp add: wav_file_def)

lemma wav_file_10:
  "rd16 (wav_file riff_size fmt_size fmt_code nch rate brate balign bits extra data_size rest) (34) = bits"
  using rd16_in [of "34" "cstr ''RIFF'' @ le32 riff_size @ cstr ''WAVE'' @ cstr ''fmt '' @ le32 fmt_size @ le16 fmt_code @ le16 nch @ le32 rate @ le32 brate @ le16 balign" "bits" "extra @ cstr ''data'' @ le32 data_size @ rest"]
  by (simp add: wav_file_def)

lemma wav_file_12:
  "tag_at (wav_file riff_size fmt_size fmt_code nch rate brate balign bits extra data_size rest) (36 + length extra) = TAG CHR ''d'' CHR ''a'' CHR ''t'' CHR ''a''"
  using tag_data_in [of "36 + length extra" "cstr ''RIFF'' @ le32 riff_size @ cstr ''WAVE'' @ cstr ''fmt '' @ le32 fmt_size @ le16 fmt_code @ le16 nch @ le32 rate @ le32 brate @ le16 balign @ le16 bits @ extra" "le32 data_size @ rest"]
  by (simp add: wav_file_def)

lemma wav_file_13:
  "rd32 (wav_file riff_size fmt_size fmt_code nch rate brate balign bits extra data_size rest) (40 + length extra) = data_size"
  using rd32_in [of "40 + length extra" "cstr ''RIFF'' @ le32 riff_size @ cstr ''WAVE'' @ cstr ''fmt '' @ le32 fmt_size @ le16 fmt_code @ le16 nch @ le32 rate @ le32 brate @ le16 balign @ le16 bits @ extra @ cstr ''data''" "data_size" "rest"]
  by (simp add: wav_file_def)

lemma wav_file_length: "length (wav_file riff_size fmt_size fmt_code nch rate brate balign bits extra data_size rest) = 44 + length extra + length rest"
  by (simp add: wav_file_def)


subsection \<open>Scanning a canonical file\<close>

lemma unat_add_small:
  fixes a b :: u32
  shows "unat a + unat b < 2 ^ 32 \<Longrightarrow> unat (a + b) = unat a + unat b"
  by (simp add: unat_add_lem [THEN iffD1])

lemma unat_of_nat_small: "k < 2 ^ 32 \<Longrightarrow> unat (of_nat k :: u32) = k"
  by (simp add: unat_of_nat)

lemma begin_cursor:
  assumes "length b < 2 ^ 32"
  shows "cursor_at (this\<lparr>buffer := b, len := of_nat (length b), data_pos := 0,
                        headerInfo := zero_info, visited := []\<rparr>)
           b (length b) 0 zero_info (sound_pos this)"
  using assms by (simp add: cursor_at_def unat_of_nat_small)

lemma scan_canonical:
  fixes n d :: u32
  assumes n16: "16 \<le> n" and le: "length extra = unat n - 16" and fc: "fmt_code \<noteq> 0xfffe"
    and d0: "d \<noteq> 0" and sz: "20 + unat n + unat d < 0x7fff0000"
    and rs: "length rest \<le> unat d + 1"
  shows "\<exists>h. WAVHeader_begin this
                (wav_file (20 + n + d) n fmt_code nch rate brate balign bits extra d rest)
                (of_nat (length (wav_file (20 + n + d) n fmt_code nch rate brate balign bits extra d rest)))
              = Some h
           \<and> cursor_at h (wav_file (20 + n + d) n fmt_code nch rate brate balign bits extra d rest)
                (28 + unat n + length rest) (28 + unat n + unat d)
                (zero_info\<lparr>format := ucast fmt_code, channels := ucast nch, sample_rate := rate,
                   byte_rate := brate, block_align := ucast balign, bits_per_sample := ucast bits,
                   is_valid := True, data_length := d\<rparr>)
                (of_nat (28 + unat n))"
proof -
  let ?b = "wav_file (20 + n + d) n fmt_code nch rate brate balign bits extra d rest"
  let ?l = "28 + unat n + length rest"
  let ?L = "20 + n + d"
  have n16': "16 \<le> unat n" using n16 by (simp add: word_le_nat_alt)
  have lb: "length ?b = ?l" using le n16' by (simp add: wav_file_length)
  have l32: "?l < 2 ^ 32" using sz rs by simp
  have u20: "unat (20 + n) = 20 + unat n"
    using sz by (subst unat_add_small) simp_all
  have uL: "unat ?L = 20 + unat n + unat d"
    using sz u20 by (subst unat_add_small) simp_all
  have u8d: "unat (8 + d) = 8 + unat d"
    using sz by (subst unat_add_small) simp_all
  have e1: "?L - 4 - 8 - n = 8 + d" by simp
  have e2: "8 + d - 8 - d = 0" by simp
  have e3: "?L - 4 - 8 = 8 + d + n" by simp
  have e4: "?L - 4 = 16 + n + d" by simp
  have u16: "unat (16 + n + d) = 16 + unat n + unat d"
  proof -
    have "unat (16 + n) = 16 + unat n" using sz by (subst unat_add_small) simp_all
    then show ?thesis using sz by (subst unat_add_small) simp_all
  qed
  have u8dn: "unat (8 + d + n) = 8 + unat d + unat n"
    using sz u8d by (subst unat_add_small) simp_all
  have L0: "\<not> (?L = 0 \<or> 0x7fff0000 \<le> ?L)"
    using uL sz by (auto simp: word_le_nat_alt word_unat_eq_iff)
  have L4: "?L = 0 \<or> 4 \<le> ?L"
    using uL by (simp add: word_le_nat_alt)
  have a0: "cursor_at (this\<lparr>buffer := ?b, len := of_nat (length ?b), data_pos := 0,
                        headerInfo := zero_info, visited := []\<rparr>) ?b ?l 0 zero_info (sound_pos this)"
    using begin_cursor [of ?b this] l32 lb by simp
  from scan_riff_wave [OF a0 _ _ _ _ L4]
  obtain s1 where
    sc: "scan_loop (this\<lparr>buffer := ?b, len := of_nat (length ?b), data_pos := 0,
                        headerInfo := zero_info, visited := []\<rparr>) =
             (case riff_chunks (?L - 4) s1 of
                (returned, rlen, s'') \<Rightarrow>
                  if returned then Some s''
                  else scan_loop (if rlen > 0 then seek rlen SEEK_CUR s'' else s''))"
    and a1: "cursor_at s1 ?b ?l 12 zero_info (sound_pos this)"
    using L0 n16' by (auto simp: wav_file_0 wav_file_1 wav_file_2)
  let ?hi2 = "zero_info\<lparr>format := ucast fmt_code, channels := ucast nch, sample_rate := rate,
                   byte_rate := brate, block_align := ucast balign, bits_per_sample := ucast bits,
                   is_valid := True\<rparr>"
  have c1a: "8 \<le> ?L - 4"
    unfolding e4 word_le_nat_alt u16 by simp
  have c1b: "n \<le> ?L - 4 - 8"
    unfolding e3 word_le_nat_alt u8dn by simp
  note c1 = c1a c1b
  have n31: "unat n < 2 ^ 31" using sz by simp
  from riff_chunks_fmt [OF a1 c1(1) _ _ _ n16 c1(2) n31, of ]
  obtain s2 where
    f1: "riff_chunks (?L - 4) s1 = riff_chunks (8 + d) s2"
    and a2: "cursor_at s2 ?b ?l (20 + unat n) ?hi2 (sound_pos this)"
    using fc e1 by (auto simp: wav_file_3 wav_file_4 wav_file_5 wav_file_6 wav_file_7 wav_file_8
        wav_file_9 wav_file_10 zero_info_def)
  have c2a: "8 \<le> 8 + d"
    unfolding word_le_nat_alt u8d by simp
  have c2b: "d \<le> 8 + d - 8" by simp
  have ns: "\<not> is_streamed ?hi2" by (simp add: zero_info_def)
  have ix: "36 + length extra = 20 + unat n" "40 + length extra = 20 + unat n + 4"
    using le n16' by simp_all
  have tg: "tag_at ?b (20 + unat n) = TAG CHR ''d'' CHR ''a'' CHR ''t'' CHR ''a''"
    using wav_file_12 [of "20 + n + d" n fmt_code nch rate brate balign bits extra d rest]
    unfolding ix .
  have dd: "rd32 ?b (20 + unat n + 4) = d"
    using wav_file_13 [of "20 + n + d" n fmt_code nch rate brate balign bits extra d rest]
    unfolding ix .
  from riff_chunks_data [OF a2 c2a _ tg dd c2b d0 ns]
  obtain s3 where
    f2: "riff_chunks (8 + d) s2 = riff_chunks 0 s3"
    and a3: "cursor_at s3 ?b ?l (20 + unat n + 8 + unat d) (?hi2\<lparr>data_length := d\<rparr>)
               (of_nat (20 + unat n + 8))"
    using sz e2 by auto
  have f3: "riff_chunks 0 s3 = (False, 0, s3)"
    by (rule riff_chunks_end) simp
  have e: "eof s3"
    using eof_at [OF a3] rs by simp
  have "scan_loop (this\<lparr>buffer := ?b, len := of_nat (length ?b), data_pos := 0,
                        headerInfo := zero_info, visited := []\<rparr>) = Some s3"
    unfolding sc f1 f2 f3 using scan_eof [OF e] by simp
  moreover have "cursor_at s3 ?b ?l (28 + unat n + unat d) (?hi2\<lparr>data_length := d\<rparr>)
               (of_nat (28 + unat n))"
    using a3 by (simp add: add.commute add.left_commute)
  ultimately show ?thesis
    unfolding WAVHeader_begin_def by blast
qed

lemma scan_streamed:
  fixes n d L :: u32
  assumes n16: "16 \<le> n" and le: "length extra = unat n - 16" and fc: "fmt_code \<noteq> 0xfffe"
    and n31: "unat n < 2 ^ 31" and l32: "28 + unat n + length rest < 2 ^ 32"
    and st: "(L = 0 \<or> 0x7fff0000 \<le> L) \<or> d = 0"
    and L4: "L = 0 \<or> 4 \<le> L"
    and r1: "8 \<le> (if L = 0 \<or> 0x7fff0000 \<le> L then NOT 0 else L) - 4"
    and r2: "n \<le> (if L = 0 \<or> 0x7fff0000 \<le> L then NOT 0 else L) - 4 - 8"
    and r3: "8 \<le> (if L = 0 \<or> 0x7fff0000 \<le> L then NOT 0 else L) - 4 - 8 - n"
    and r4: "d \<le> (if L = 0 \<or> 0x7fff0000 \<le> L then NOT 0 else L) - 4 - 8 - n - 8"
  shows "\<exists>h. WAVHeader_begin this
                (wav_file L n fmt_code nch rate brate balign bits extra d rest)
                (of_nat (length (wav_file L n fmt_code nch rate brate balign bits extra d rest)))
              = Some h
           \<and> cursor_at h (wav_file L n fmt_code nch rate brate balign bits extra d rest)
                (28 + unat n + length rest) (28 + unat n)
                (zero_info\<lparr>format := ucast fmt_code, channels := ucast nch, sample_rate := rate,
                   byte_rate := brate, block_align := ucast balign, bits_per_sample := ucast bits,
                   is_valid := True, data_length := d, is_streamed := True\<rparr>)
                (of_nat (28 + unat n))"
proof -
  let ?b = "wav_file L n fmt_code nch rate brate balign bits extra d rest"
  let ?l = "28 + unat n + length rest"
  let ?st = "L = 0 \<or> 0x7fff0000 \<le> L"
  let ?R = "(if ?st then NOT 0 else L) - 4"
  let ?hi1 = "if ?st then zero_info\<lparr>is_streamed := True\<rparr> else zero_info"
  have n16': "16 \<le> unat n" using n16 by (simp add: word_le_nat_alt)
  have lb: "length ?b = ?l" using le n16' by (simp add: wav_file_length)
  have a0: "cursor_at (this\<lparr>buffer := ?b, len := of_nat (length ?b), data_pos := 0,
                        headerInfo := zero_info, visited := []\<rparr>) ?b ?l 0 zero_info (sound_pos this)"
    using begin_cursor [of ?b this] l32 lb by simp
  from scan_riff_wave [OF a0 _ _ _ _ L4]
  obtain s1 where
    sc: "scan_loop (this\<lparr>buffer := ?b, len := of_nat (length ?b), data_pos := 0,
                        headerInfo := zero_info, visited := []\<rparr>) =
             (case riff_chunks ?R s1 of
                (returned, rlen, s'') \<Rightarrow>
                  if returned then Some s''
                  else scan_loop (if rlen > 0 then seek rlen SEEK_CUR s'' else s''))"
    and a1: "cursor_at s1 ?b ?l 12 ?hi1 (sound_pos this)"
    using n16' by (auto simp: wav_file_0 wav_file_1 wav_file_2)
  let ?hi2 = "?hi1\<lparr>format := ucast fmt_code, channels := ucast nch, sample_rate := rate,
                   byte_rate := brate, block_align := ucast balign, bits_per_sample := ucast bits,
                   is_valid := True\<rparr>"
  from riff_chunks_fmt [OF a1 r1 _ _ _ n16 r2 n31]
  obtain s2 where
    f1: "riff_chunks ?R s1 = riff_chunks (?R - 8 - n) s2"
    and a2: "cursor_at s2 ?b ?l (20 + unat n) ?hi2 (sound_pos this)"
    using fc by (auto simp: wav_file_3 wav_file_4 wav_file_5 wav_file_6 wav_file_7 wav_file_8
        wav_file_9 wav_file_10)
  have ix: "36 + length extra = 20 + unat n" "40 + length extra = 20 + unat n + 4"
    using le n16' by simp_all
  have tg: "tag_at ?b (20 + unat n) = TAG CHR ''d'' CHR ''a'' CHR ''t'' CHR ''a''"
    using wav_file_12 [of L n fmt_code nch rate brate balign bits extra d rest]
    unfolding ix .
  have dd: "rd32 ?b (20 + unat n + 4) = d"
    using wav_file_13 [of L n fmt_code nch rate brate balign bits extra d rest]
    unfolding ix .
  have st2: "d = 0 \<or> is_streamed ?hi2"
    using st by auto
  from riff_chunks_data_streamed [OF a2 r3 _ tg dd r4 st2]
  obtain s3 where
    f2: "riff_chunks (?R - 8 - n) s2 = (True, ?R - 8 - n - 8, s3)"
    and a3: "cursor_at s3 ?b ?l (20 + unat n + 8) (?hi2\<lparr>data_length := d, is_streamed := True\<rparr>)
               (of_nat (20 + unat n + 8))"
    by auto
  have "scan_loop (this\<lparr>buffer := ?b, len := of_nat (length ?b), data_pos := 0,
                        headerInfo := zero_info, visited := []\<rparr>) = Some s3"
    unfolding sc f1 f2 by simp
  moreover have "cursor_at s3 ?b ?l (28 + unat n)
      (zero_info\<lparr>format := ucast fmt_code, channels := ucast nch, sample_rate := rate,
                   byte_rate := brate, block_align := ucast balign, bits_per_sample := ucast bits,
                   is_valid := True, data_length := d, is_streamed := True\<rparr>)
               (of_nat (28 + unat n))"
    using a3 by (cases "L = 0 \<or> 0x7fff0000 \<le> L")
      (simp_all add: add.commute add.left_commute zero_info_def)
  ultimately show ?thesis
    unfolding WAVHeader_begin_def by blast
qed





section \<open>Encoding a descriptor and decoding the header\<close>

lemma begin_fields:
  "format (audioInfo (WAVEncoder_begin e ai)) = format ai"
  "channels (audioInfo (WAVEncoder_begin e ai)) = channels ai"
  "sample_rate (audioInfo (WAVEncoder_begin e ai)) = sample_rate ai"
  "bits_per_sample (audioInfo (WAVEncoder_begin e ai)) = bits_per_sample ai"
  "file_size (audioInfo (WAVEncoder_begin e ai)) = file_size ai"
  "stream_ptr (WAVEncoder_begin e ai) = stream_ptr e"
  "is_open (WAVEncoder_begin e ai)"
  "\<not> header_written (WAVEncoder_begin e ai)"
  by (simp_all add: WAVEncoder_begin_def Let_def)

lemma first_write_emits_header:
  assumes "stream_ptr e = Some st"
  shows "\<exists>st' tail. stream_ptr (snd (WAVEncoder_write (WAVEncoder_begin e ai) w)) = Some st'
           \<and> written st' = written st @ wav_header_bytes (audioInfo (WAVEncoder_begin e ai)) @ tail"
proof -
  let ?e = "WAVEncoder_begin e ai"
  have s: "stream_ptr ?e = Some st" "is_open ?e" "\<not> header_written ?e"
    using assms by (simp_all add: begin_fields)
  show ?thesis
    using s
    by (auto simp: WAVEncoder_write_def emit_header [OF s(1)] stream_put_def Stream_write_def
        Stream_flush_def Let_def)
qed

lemma wav_header_as_file:
  "wav_header_bytes a =
     wav_file (file_size a - 8) 16 (ucast (format a)) (ucast (channels a)) (sample_rate a)
       (int_div (sample_rate a * bits_per_sample a * channels a) 8)
       (ucast (int_div (channels a * bits_per_sample a) 8)) (ucast (bits_per_sample a))
       [] (file_size a - 44) []"
  by (simp add: wav_header_bytes_def wav_file_def)

lemma ucast16_id:
  fixes c :: u32
  assumes "c < 0x10000"
  shows "(ucast (ucast c :: u16) :: u32) = c"
proof -
  have "(ucast (ucast c :: u16) :: u32) = take_bit 16 c"
    by (simp add: unsigned_ucast_eq)
  moreover have "take_bit 16 c = c"
    using assms
    by (simp add: word_unat_eq_iff unsigned_take_bit_eq take_bit_nat_eq_self word_less_nat_alt)
  ultimately show ?thesis by simp
qed

lemma decode_header:
  assumes fs: "36 \<le> file_size a - 8" and fc: "(ucast (format a) :: u16) \<noteq> 0xfffe"
  shows "\<exists>h. WAVHeader_begin this (wav_header_bytes a) (of_nat (length (wav_header_bytes a))) = Some h
           \<and> format (headerInfo h) = ucast (ucast (format a) :: u16)
           \<and> channels (headerInfo h) = ucast (ucast (channels a) :: u16)
           \<and> sample_rate (headerInfo h) = sample_rate a
           \<and> bits_per_sample (headerInfo h) = ucast (ucast (bits_per_sample a) :: u16)
           \<and> is_valid (headerInfo h)"
proof -
  define L where "L = file_size a - 8"
  define d where "d = L - 36"
  have dd: "file_size a - 44 = d" by (simp add: d_def L_def)
  have fs': "36 \<le> L" using fs by (simp add: L_def)
  have uL: "36 \<le> unat L" using fs' by (simp add: word_le_nat_alt)
  have ud: "unat d = unat L - 36"
    unfolding d_def using fs' by (simp add: unat_sub)
  have hb: "wav_header_bytes a =
     wav_file L 16 (ucast (format a)) (ucast (channels a)) (sample_rate a)
       (int_div (sample_rate a * bits_per_sample a * channels a) 8)
       (ucast (int_div (channels a * bits_per_sample a) 8)) (ucast (bits_per_sample a))
       [] d []"
    unfolding wav_header_as_file dd L_def ..
  show ?thesis
  proof (cases "0x7fff0000 \<le> L \<or> d = 0")
    case True
    have st: "(L = 0 \<or> 0x7fff0000 \<le> L) \<or> d = 0" using True by auto
    have L4: "L = 0 \<or> 4 \<le> L" using uL by (simp add: word_le_nat_alt)
    have L0: "L \<noteq> 0" using uL by auto
    have R: "(if L = 0 \<or> 0x7fff0000 \<le> L then NOT 0 else L) - 4
             = (if 0x7fff0000 \<le> L then - 5 else 32)"
    proof (cases "0x7fff0000 \<le> L")
      case True
      then show ?thesis by simp
    next
      case False
      with True have "d = 0" by simp
      then have "L = 36" using ud uL by (simp add: word_unat_eq_iff)
      with False L0 show ?thesis by simp
    qed
    have dle: "d \<le> (if 0x7fff0000 \<le> L then - 37 else 0)"
    proof (cases "0x7fff0000 \<le> L")
      case True
      have "unat d \<le> 0xFFFFFFDB"
        using ud unsigned_less [of L, where 'a = nat] by simp
      moreover have "unat (- 37 :: u32) = 0xFFFFFFDB" by simp
      ultimately have "d \<le> - 37" unfolding word_le_nat_alt by simp
      with True show ?thesis by simp
    next
      case False
      with True have "d = 0" by simp
      with False show ?thesis by simp
    qed
    have r1: "8 \<le> (if L = 0 \<or> 0x7fff0000 \<le> L then NOT 0 else L) - 4"
      unfolding R by simp
    have r2: "16 \<le> (if L = 0 \<or> 0x7fff0000 \<le> L then NOT 0 else L) - 4 - 8"
      unfolding R by simp
    have r3: "8 \<le> (if L = 0 \<or> 0x7fff0000 \<le> L then NOT 0 else L) - 4 - 8 - 16"
      unfolding R by simp
    have r4: "d \<le> (if L = 0 \<or> 0x7fff0000 \<le> L then NOT 0 else L) - 4 - 8 - 16 - 8"
      unfolding R using dle by (simp split: if_splits)
    note r = r1 r2 r3 r4
    from scan_streamed [where n = 16 and extra = "[]" and rest = "[]" and L = L and d = d
        and this = this and nch = "ucast (channels a)" and rate = "sample_rate a"
        and brate = "int_div (sample_rate a * bits_per_sample a * channels a) 8"
        and balign = "ucast (int_div (channels a * bits_per_sample a) 8)"
        and bits = "ucast (bits_per_sample a)"
        and fmt_code = "ucast (format a)", OF _ _ fc _ _ st L4 r]
    show ?thesis
      unfolding hb
      by (auto simp: cursor_at_def zero_info_def)
  next
    case False
    then have lt: "L < 0x7fff0000" and d0: "d \<noteq> 0" by auto
    have L': "L = 20 + 16 + d" by (simp add: d_def)
    have sz: "20 + unat (16 :: u32) + unat d < 0x7fff0000"
      using lt uL ud by (simp add: word_less_nat_alt)
    from scan_canonical [where n = 16 and extra = "[]" and rest = "[]" and d = d
        and this = this and nch = "ucast (channels a)" and rate = "sample_rate a"
        and brate = "int_div (sample_rate a * bits_per_sample a * channels a) 8"
        and balign = "ucast (int_div (channels a * bits_per_sample a) 8)"
        and bits = "ucast (bits_per_sample a)"
        and fmt_code = "ucast (format a)", OF _ _ fc d0 sz]
    show ?thesis
      unfolding hb L' [symmetric]
      by (auto simp: cursor_at_def zero_info_def)
  qed
qed

text \<open>
  C2, as stated, fails: the encoder writes the caller's \<open>file_size - 8\<close> as RIFF size,
  and the scanner trusts it. For a PCM descriptor with \<open>file_size = 20\<close> the RIFF size
  12 leaves no room for the \<open>fmt\<close> chunk: the scan of the 44 header bytes sets no field,
  and the decoded sample rate is 0 instead of 44100.
\<close>

theorem WAV_header_round_trip_small_file_size:
  "sample_rate (example_info 1 1000 20) = 44100
   \<and> (case stream_ptr (snd (WAVEncoder_write
               (WAVEncoder_begin (WAVEncoder_new Stream_new zero_info) (example_info 1 1000 20)) [])) of
         None \<Rightarrow> False
       | Some st' \<Rightarrow>
           length (written st') = 44
           \<and> map_option (\<lambda>h. (is_valid (headerInfo h), sample_rate (headerInfo h)))
                (WAVHeader_begin WAVHeader_new (written st') 44) = Some (False, 0))"
  by code_simp

text \<open>
  C2, amended: for every descriptor with the PCM format code, a channel count and bits
  per sample in the range of 16 bits, and a \<open>file_size\<close> whose RIFF size
  \<open>file_size - 8\<close> (modulo \<open>2^32\<close>) is at least 36, that is, a file no smaller than its
  44-byte header: the first write after \<^verbatim>\<open>begin\<close> sends the 44 header bytes to the sink
  before anything else, and \<^verbatim>\<open>WAVHeader::begin\<close> on these bytes returns a descriptor with
  the same sample rate, channel count, bits per sample and format code.
\<close>

theorem WAV_header_round_trip:
  assumes "stream_ptr e = Some st" and "format ai = WAV_FORMAT_PCM"
    and "channels ai < 0x10000" and "bits_per_sample ai < 0x10000"
    and "36 \<le> file_size ai - 8"
  shows "\<exists>st' tail h.
           stream_ptr (snd (WAVEncoder_write (WAVEncoder_begin e ai) w)) = Some st'
           \<and> written st' = written st @ wav_header_bytes (audioInfo (WAVEncoder_begin e ai)) @ tail
           \<and> length (wav_header_bytes (audioInfo (WAVEncoder_begin e ai))) = 44
           \<and> WAVHeader_begin this (wav_header_bytes (audioInfo (WAVEncoder_begin e ai))) 44 = Some h
           \<and> sample_rate (headerInfo h) = sample_rate ai
           \<and> channels (headerInfo h) = channels ai
           \<and> bits_per_sample (headerInfo h) = bits_per_sample ai
           \<and> format (headerInfo h) = format ai"
proof -
  let ?a = "audioInfo (WAVEncoder_begin e ai)"
  have fs: "36 \<le> file_size ?a - 8"
    using assms(5) by (simp add: begin_fields)
  have fc: "(ucast (format ?a) :: u16) \<noteq> 0xfffe"
    using assms(2) by (simp add: begin_fields WAV_FORMAT_PCM_def)
  from decode_header [OF fs fc, of this] obtain h where
    b: "WAVHeader_begin this (wav_header_bytes ?a) (of_nat (length (wav_header_bytes ?a))) = Some h"
    and f: "format (headerInfo h) = ucast (ucast (format ?a) :: u16)"
    and c: "channels (headerInfo h) = ucast (ucast (channels ?a) :: u16)"
    and r: "sample_rate (headerInfo h) = sample_rate ?a"
    and p: "bits_per_sample (headerInfo h) = ucast (ucast (bits_per_sample ?a) :: u16)"
    by blast
  have b': "WAVHeader_begin this (wav_header_bytes ?a) 44 = Some h"
    using b by (simp add: length_wav_header_bytes)
  have f': "format (headerInfo h) = format ai"
    using f assms(2) by (simp add: begin_fields WAV_FORMAT_PCM_def)
  have c': "channels (headerInfo h) = channels ai"
    using c ucast16_id [OF assms(3)] by (simp add: begin_fields)
  have p': "bits_per_sample (headerInfo h) = bits_per_sample ai"
    using p ucast16_id [OF assms(4)] by (simp add: begin_fields)
  have r': "sample_rate (headerInfo h) = sample_rate ai"
    using r by (simp add: begin_fields)
  from first_write_emits_header [OF assms(1), of ai w] obtain st' tail where
    "stream_ptr (snd (WAVEncoder_write (WAVEncoder_begin e ai) w)) = Some st'"
    "written st' = written st @ wav_header_bytes ?a @ tail"
    by blast
  with b' f' c' p' r' length_wav_header_bytes [of ?a] show ?thesis by blast
qed

theorem WAV_header_round_trip_witness:
  "stream_ptr (WAVEncoder_new Stream_new zero_info) = Some Stream_new
   \<and> format (defaultConfig 44100 16 2) = WAV_FORMAT_PCM
   \<and> channels (defaultConfig 44100 16 2) < 0x10000
   \<and> bits_per_sample (defaultConfig 44100 16 2) < 0x10000
   \<and> 36 \<le> file_size (defaultConfig 44100 16 2) - 8
   \<and> (\<exists>h. WAVHeader_begin WAVHeader_new
              (wav_header_bytes (audioInfo (WAVEncoder_begin (WAVEncoder_new Stream_new zero_info)
                 (defaultConfig 44100 16 2)))) 44 = Some h
          \<and> sample_rate (headerInfo h) = 44100
          \<and> channels (headerInfo h) = 2
          \<and> bits_per_sample (headerInfo h) = 16
          \<and> format (headerInfo h) = 1)"
proof -
  have h: "stream_ptr (WAVEncoder_new Stream_new zero_info) = Some Stream_new"
    "format (defaultConfig 44100 16 2) = WAV_FORMAT_PCM"
    "channels (defaultConfig 44100 16 2) < 0x10000"
    "bits_per_sample (defaultConfig 44100 16 2) < 0x10000"
    "36 \<le> file_size (defaultConfig 44100 16 2) - 8"
    by (simp_all add: WAVEncoder_new_def defaultConfig_def zero_info_def WAV_FORMAT_PCM_def)
  have v: "sample_rate (defaultConfig 44100 16 2) = 44100" "channels (defaultConfig 44100 16 2) = 2"
    "bits_per_sample (defaultConfig 44100 16 2) = 16" "format (defaultConfig 44100 16 2) = 1"
    by (simp_all add: defaultConfig_def zero_info_def WAV_FORMAT_PCM_def)
  show ?thesis
    using WAV_header_round_trip [OF h, of "[]" WAVHeader_new] h v by auto
qed

end
